theory Spec2Isabelle
  imports Main "HOL-Library.Sublist" "HOL-Library.Char_ord" "HOL-Library.List_Lexorder"
    "HOL-Library.AList" "HOL-Library.Code_Target_Nat"
begin

section \<open>Python values, strings and dates\<close>

text \<open>
  The task subsystem of the meeting summarizer (\<^verbatim>\<open>task_manager.py\<close>, \<^verbatim>\<open>db.py\<close> and the
  deadline heuristic of \<^verbatim>\<open>ollama_nlp.py\<close>) is embedded as pure functions over an explicit
  state: the \<^verbatim>\<open>tasks\<close> collection of the MongoDB database and the job store of the
  scheduler. The clock reading \<^verbatim>\<open>datetime.utcnow()\<close> is an argument of every operation
  that reads the clock; the several readings one operation makes are taken as one.

  A Python \<^verbatim>\<open>str\<close> is a list of characters; a character stands for a code point below 256,
  which covers ASCII and Latin-1 text. \<^verbatim>\<open>str.strip\<close> and \<^verbatim>\<open>str.lower\<close> act on these code
  points as CPython does.
\<close>

subsection \<open>Strings\<close>

definition isspace :: "char \<Rightarrow> bool" where
  "isspace c = (of_char c \<in> set [9, 10, 11, 12, 13, 28, 29, 30, 31, 32, 133, 160 :: nat])"

definition strip :: "string \<Rightarrow> string" where
  "strip s = rev (dropWhile isspace (rev (dropWhile isspace s)))"

definition lower_char :: "char \<Rightarrow> char" where
  "lower_char c =
     (let n = of_char c :: nat
      in if (65 \<le> n \<and> n \<le> 90) \<or> (192 \<le> n \<and> n \<le> 214) \<or> (216 \<le> n \<and> n \<le> 222)
         then char_of (n + 32) else c)"

definition lower :: "string \<Rightarrow> string" where
  "lower s = map lower_char s"

text \<open>\<^verbatim>\<open>k in s\<close> on strings: \<open>k\<close> occurs in \<open>s\<close> as a contiguous block.\<close>

fun py_in :: "string \<Rightarrow> string \<Rightarrow> bool" where
  "py_in k [] = (k = [])"
| "py_in k (c # cs) = (prefix k (c # cs) \<or> py_in k cs)"

text \<open>Fixed-width decimal fields, as \<^verbatim>\<open>%Y\<close>, \<^verbatim>\<open>%m\<close> and \<^verbatim>\<open>%d\<close> print them.\<close>

definition digit :: "nat \<Rightarrow> char" where
  "digit k = char_of (48 + k)"

definition pad2 :: "nat \<Rightarrow> string" where
  "pad2 n = [digit (n div 10 mod 10), digit (n mod 10)]"

definition pad4 :: "nat \<Rightarrow> string" where
  "pad4 n = [digit (n div 1000 mod 10), digit (n div 100 mod 10), digit (n div 10 mod 10),
             digit (n mod 10)]"

subsection \<open>Dates\<close>

datatype pyerror =
    ValueError | AttributeError | TypeError | OverflowError | JobLookupError | WriteError

datatype date = Date (year: nat) (month: nat) (day: nat)

text \<open>
  A \<^verbatim>\<open>datetime\<close>: the calendar date and the time of day in microseconds. All datetimes
  of the program are naive UTC values.
\<close>

datatype datetime = DateTime (dt_date: date) (dt_micros: nat)

definition MINYEAR :: nat where "MINYEAR = 1"
definition MAXYEAR :: nat where "MAXYEAR = 9999"

definition is_leap :: "nat \<Rightarrow> bool" where
  "is_leap y = (y mod 4 = 0 \<and> (y mod 100 \<noteq> 0 \<or> y mod 400 = 0))"

definition days_in_month :: "nat \<Rightarrow> nat \<Rightarrow> nat" where
  "days_in_month y m =
     (if m = 2 then (if is_leap y then 29 else 28)
      else if m = 4 \<or> m = 6 \<or> m = 9 \<or> m = 11 then 30 else 31)"

definition valid_date :: "date \<Rightarrow> bool" where
  "valid_date d =
     (MINYEAR \<le> year d \<and> year d \<le> MAXYEAR \<and> 1 \<le> month d \<and> month d \<le> 12 \<and>
      1 \<le> day d \<and> day d \<le> days_in_month (year d) (month d))"

definition next_day :: "date \<Rightarrow> date" where
  "next_day d =
     (if day d < days_in_month (year d) (month d) then Date (year d) (month d) (day d + 1)
      else if month d < 12 then Date (year d) (month d + 1) 1
      else Date (year d + 1) 1 1)"

definition prev_day :: "date \<Rightarrow> date" where
  "prev_day d =
     (if 1 < day d then Date (year d) (month d) (day d - 1)
      else if 1 < month d then Date (year d) (month d - 1) (days_in_month (year d) (month d - 1))
      else Date (year d - 1) 12 31)"

fun add_days :: "date \<Rightarrow> nat \<Rightarrow> date" where
  "add_days d 0 = d"
| "add_days d (Suc n) = add_days (next_day d) n"

text \<open>
  \<^verbatim>\<open>d + timedelta(days=n)\<close> and \<^verbatim>\<open>d - timedelta(days=1)\<close>: Python raises
  \<^verbatim>\<open>OverflowError\<close> when the result leaves the years 1 to 9999.
\<close>

definition plus_timedelta :: "date \<Rightarrow> nat \<Rightarrow> pyerror + date" where
  "plus_timedelta d n =
     (let r = add_days d n in if MAXYEAR < year r then Inl OverflowError else Inr r)"

definition minus_one_day :: "date \<Rightarrow> pyerror + date" where
  "minus_one_day d =
     (let r = prev_day d in if year r < MINYEAR then Inl OverflowError else Inr r)"

text \<open>Chronological order of dates and of datetimes.\<close>

definition date_less :: "date \<Rightarrow> date \<Rightarrow> bool" where
  "date_less a b =
     (year a < year b \<or> (year a = year b \<and>
        (month a < month b \<or> (month a = month b \<and> day a < day b))))"

definition datetime_less :: "datetime \<Rightarrow> datetime \<Rightarrow> bool" where
  "datetime_less a b =
     (date_less (dt_date a) (dt_date b) \<or>
      (dt_date a = dt_date b \<and> dt_micros a < dt_micros b))"

text \<open>
  \<^verbatim>\<open>strftime('%Y-%m-%d')\<close>. Clock readings lie after 1970; how the platform prints
  years below 1000 plays no role.
\<close>

definition strftime :: "date \<Rightarrow> string" where
  "strftime d = pad4 (year d) @ ''-'' @ pad2 (month d) @ ''-'' @ pad2 (day d)"

text \<open>
  \<^verbatim>\<open>datetime.strptime(s, '%Y-%m-%d')\<close>: four digits, a month and a day of one or two
  digits (the alternatives of the library's patterns, in their order), nothing after the
  day, and a date that exists. Every failure is a \<^verbatim>\<open>ValueError\<close>.
\<close>

definition is_digit :: "char \<Rightarrow> bool" where
  "is_digit c = (48 \<le> (of_char c :: nat) \<and> (of_char c :: nat) \<le> 57)"

definition digit_val :: "char \<Rightarrow> nat" where
  "digit_val c = of_char c - 48"

fun parse_month :: "string \<Rightarrow> (nat \<times> string) option" where
  "parse_month (a # b # r) =
     (if a = CHR ''1'' \<and> is_digit b \<and> digit_val b \<le> 2 then Some (10 + digit_val b, r)
      else if a = CHR ''0'' \<and> is_digit b \<and> 1 \<le> digit_val b then Some (digit_val b, r)
      else if is_digit a \<and> 1 \<le> digit_val a then Some (digit_val a, b # r)
      else None)"
| "parse_month [a] = (if is_digit a \<and> 1 \<le> digit_val a then Some (digit_val a, []) else None)"
| "parse_month [] = None"

fun parse_day :: "string \<Rightarrow> (nat \<times> string) option" where
  "parse_day (a # b # r) =
     (if a = CHR ''3'' \<and> is_digit b \<and> digit_val b \<le> 1 then Some (30 + digit_val b, r)
      else if is_digit a \<and> 1 \<le> digit_val a \<and> digit_val a \<le> 2 \<and> is_digit b
        then Some (10 * digit_val a + digit_val b, r)
      else if a = CHR ''0'' \<and> is_digit b \<and> 1 \<le> digit_val b then Some (digit_val b, r)
      else if is_digit a \<and> 1 \<le> digit_val a then Some (digit_val a, b # r)
      else if a = CHR '' '' \<and> is_digit b \<and> 1 \<le> digit_val b then Some (digit_val b, r)
      else None)"
| "parse_day [a] = (if is_digit a \<and> 1 \<le> digit_val a then Some (digit_val a, []) else None)"
| "parse_day [] = None"

fun strptime_str :: "string \<Rightarrow> pyerror + date" where
  "strptime_str (y1 # y2 # y3 # y4 # dash # r) =
     (if is_digit y1 \<and> is_digit y2 \<and> is_digit y3 \<and> is_digit y4 \<and> dash = CHR ''-'' then
        (case parse_month r of
           Some (m, dash2 # r2) \<Rightarrow>
             (if dash2 = CHR ''-'' then
                (case parse_day r2 of
                   Some (d, []) \<Rightarrow>
                     (let dt = Date (1000 * digit_val y1 + 100 * digit_val y2 +
                                      10 * digit_val y3 + digit_val y4) m d
                      in if valid_date dt then Inr dt else Inl ValueError)
                 | _ \<Rightarrow> Inl ValueError)
              else Inl ValueError)
         | _ \<Rightarrow> Inl ValueError)
      else Inl ValueError)"
| "strptime_str _ = Inl ValueError"

subsection \<open>Values and documents\<close>

text \<open>
  The values a raw item or a stored document holds: \<^verbatim>\<open>None\<close>, a string, a datetime or
  the \<^verbatim>\<open>ObjectId\<close> that \<^verbatim>\<open>insert_one\<close> generates. A dictionary that is only read is a map;
  the patch of \<^verbatim>\<open>update_task\<close>, which is iterated, is the list of its items.
\<close>

datatype pyval = PNone | PStr string | PDatetime datetime | PObjectId nat

type_synonym pydict = "string \<rightharpoonup> pyval"

type_synonym document = "string \<rightharpoonup> pyval"

text \<open>\<^verbatim>\<open>d.get(key)\<close>: \<^verbatim>\<open>None\<close> for a missing key.\<close>

definition dict_get :: "pydict \<Rightarrow> string \<Rightarrow> pyval" where
  "dict_get d key = (case d key of None \<Rightarrow> PNone | Some v \<Rightarrow> v)"

text \<open>Truth value of a Python object: \<^verbatim>\<open>None\<close> and the empty string are false.\<close>

fun truthy :: "pyval \<Rightarrow> bool" where
  "truthy PNone = False"
| "truthy (PStr s) = (s \<noteq> [])"
| "truthy (PDatetime _) = True"
| "truthy (PObjectId _) = True"

text \<open>
  \<^verbatim>\<open>d.get(key, default)\<close> followed by a method of \<^verbatim>\<open>str\<close>: a value that is not a string
  has no such method, which raises \<^verbatim>\<open>AttributeError\<close>.
\<close>

definition get_text :: "pydict \<Rightarrow> string \<Rightarrow> string \<Rightarrow> pyerror + string" where
  "get_text d key dflt =
     (case d key of None \<Rightarrow> Inr dflt | Some (PStr s) \<Rightarrow> Inr s | Some _ \<Rightarrow> Inl AttributeError)"

definition strptime :: "pyval \<Rightarrow> pyerror + date" where
  "strptime v = (case v of PStr s \<Rightarrow> strptime_str s | _ \<Rightarrow> Inl TypeError)"

text \<open>
  The id a caller passes to the manager: the string that \<^verbatim>\<open>create_task\<close> returns, or
  the \<^verbatim>\<open>ObjectId\<close> read from a document's \<^verbatim>\<open>_id\<close> (as the task page does).
  \<^verbatim>\<open>str(ObjectId)\<close> is the 24 hexadecimal digits of the id.
\<close>

datatype idval = IdStr string | IdObject nat

definition hex_digit :: "nat \<Rightarrow> char" where
  "hex_digit k = (if k < 10 then char_of (48 + k) else char_of (87 + k))"

fun hex_digits :: "nat \<Rightarrow> nat \<Rightarrow> string" where
  "hex_digits 0 n = []"
| "hex_digits (Suc k) n = hex_digits k (n div 16) @ [hex_digit (n mod 16)]"

definition oid_str :: "nat \<Rightarrow> string" where
  "oid_str n = hex_digits 24 n"

fun id_value :: "idval \<Rightarrow> pyval" where
  "id_value (IdStr s) = PStr s"
| "id_value (IdObject n) = PObjectId n"

fun id_text :: "idval \<Rightarrow> string" where
  "id_text (IdStr s) = s"
| "id_text (IdObject n) = oid_str n"

text \<open>BSON keeps a datetime to the millisecond.\<close>

fun bson :: "pyval \<Rightarrow> pyval" where
  "bson (PDatetime t) = PDatetime (DateTime (dt_date t) (dt_micros t div 1000 * 1000))"
| "bson v = v"

section \<open>The store and the scheduler\<close>

text \<open>
  A scheduled job: the callback with its arguments and its trigger (the run date of a
  \<^verbatim>\<open>DateTrigger\<close>, the days of an \<^verbatim>\<open>IntervalTrigger\<close>). The job store maps a job id to
  its job.
\<close>

datatype job = SendTaskReminder datetime idval string | CheckOverdueTasks nat

type_synonym jobstore = "string \<rightharpoonup> job"

text \<open>
  The state the manager works on: the documents of the \<^verbatim>\<open>tasks\<close> collection in insertion
  order, the generator of fresh \<^verbatim>\<open>ObjectId\<close>s, and the jobs of the scheduler. The database
  is connected and the scheduler is running.
\<close>

record manager_state =
  tasks :: "document list"
  oid_counter :: nat
  jobs :: jobstore

definition empty_state :: manager_state where
  "empty_state = \<lparr>tasks = [], oid_counter = 0, jobs = Map.empty\<rparr>"

subsection \<open>Collection operations\<close>

text \<open>The filter \<^verbatim>\<open>{'_id': task_id}\<close>: the stored value equals the given one, type included.\<close>

definition matches_id :: "idval \<Rightarrow> document \<Rightarrow> bool" where
  "matches_id task_id doc = (doc ''_id'' = Some (id_value task_id))"

text \<open>
  \<^verbatim>\<open>insert_one\<close>: the document has no \<^verbatim>\<open>_id\<close>, so a fresh \<^verbatim>\<open>ObjectId\<close> is generated.
\<close>

definition insert_one :: "document \<Rightarrow> manager_state \<Rightarrow> nat \<times> manager_state" where
  "insert_one doc s =
     (let oid = oid_counter s;
          stored = (map_option bson \<circ> doc)(''_id'' \<mapsto> PObjectId oid)
      in (oid, s\<lparr>tasks := tasks s @ [stored], oid_counter := Suc oid\<rparr>))"

fun find_one :: "(document \<Rightarrow> bool) \<Rightarrow> document list \<Rightarrow> document option" where
  "find_one q [] = None"
| "find_one q (d # ds) = (if q d then Some d else find_one q ds)"

text \<open>
  \<^verbatim>\<open>update_one(filter, {'$set': updates})\<close> on the first matching document. The patch is
  the list of the dictionary's items (plain field names). Changing \<^verbatim>\<open>_id\<close> is refused
  by the server; \<^verbatim>\<open>modified_count\<close> is 1 when a field of the document changes, 0 when
  no document matches or the matching one already holds every value of the patch.
\<close>

definition encode_patch :: "(string \<times> pyval) list \<Rightarrow> (string \<times> pyval) list" where
  "encode_patch updates = map (\<lambda>(k, v). (k, bson v)) updates"

definition changes :: "(string \<times> pyval) list \<Rightarrow> document \<Rightarrow> bool" where
  "changes patch doc = list_ex (\<lambda>k. doc k \<noteq> map_of patch k) (map fst patch)"

definition set_fields :: "(string \<times> pyval) list \<Rightarrow> document \<Rightarrow> pyerror + (nat \<times> document)" where
  "set_fields patch doc =
     (if map_of patch ''_id'' \<noteq> None \<and> map_of patch ''_id'' \<noteq> doc ''_id'' then Inl WriteError
      else Inr (if changes patch doc then 1 else 0, doc ++ map_of patch))"

fun update_one ::
  "(document \<Rightarrow> bool) \<Rightarrow> (string \<times> pyval) list \<Rightarrow> document list \<Rightarrow> pyerror + (nat \<times> document list)"
where
  "update_one q updates [] = Inr (0, [])"
| "update_one q updates (d # ds) =
     (if q d then
        (case set_fields (encode_patch updates) d of
           Inl e \<Rightarrow> Inl e
         | Inr (n, d') \<Rightarrow> Inr (n, d' # ds))
      else
        (case update_one q updates ds of
           Inl e \<Rightarrow> Inl e
         | Inr (n, ds') \<Rightarrow> Inr (n, d # ds')))"

text \<open>\<^verbatim>\<open>delete_one\<close>: removes the first matching document; the count of removed ones.\<close>

fun delete_one :: "(document \<Rightarrow> bool) \<Rightarrow> document list \<Rightarrow> nat \<times> document list" where
  "delete_one q [] = (0, [])"
| "delete_one q (d # ds) =
     (if q d then (1, ds) else (case delete_one q ds of (n, ds') \<Rightarrow> (n, d # ds')))"

text \<open>
  Query operators on one field. \<^verbatim>\<open>$in\<close> over strings; \<^verbatim>\<open>$lt\<close>, \<^verbatim>\<open>$gte\<close> and \<^verbatim>\<open>$lte\<close>
  against a string match string values only, compared as strings. \<^verbatim>\<open>count_documents\<close>
  with an equality filter on a string field.
\<close>

definition field_in :: "document \<Rightarrow> string \<Rightarrow> string list \<Rightarrow> bool" where
  "field_in doc key vs = (case doc key of Some (PStr s) \<Rightarrow> s \<in> set vs | _ \<Rightarrow> False)"

definition field_lt :: "document \<Rightarrow> string \<Rightarrow> string \<Rightarrow> bool" where
  "field_lt doc key v = (case doc key of Some (PStr s) \<Rightarrow> s < v | _ \<Rightarrow> False)"

definition field_gte :: "document \<Rightarrow> string \<Rightarrow> string \<Rightarrow> bool" where
  "field_gte doc key v = (case doc key of Some (PStr s) \<Rightarrow> v \<le> s | _ \<Rightarrow> False)"

definition field_lte :: "document \<Rightarrow> string \<Rightarrow> string \<Rightarrow> bool" where
  "field_lte doc key v = (case doc key of Some (PStr s) \<Rightarrow> s \<le> v | _ \<Rightarrow> False)"

definition count_documents :: "(document \<Rightarrow> bool) \<Rightarrow> document list \<Rightarrow> nat" where
  "count_documents q ds = length (filter q ds)"

definition status_is :: "string \<Rightarrow> document \<Rightarrow> bool" where
  "status_is v doc = (doc ''status'' = Some (PStr v))"

text \<open>The sort key of a result whose \<^verbatim>\<open>actual_deadline\<close> values are all strings.\<close>

definition deadline_key :: "document \<Rightarrow> string" where
  "deadline_key doc = (case doc ''actual_deadline'' of Some (PStr s) \<Rightarrow> s | _ \<Rightarrow> [])"

subsection \<open>Scheduler operations\<close>

text \<open>\<^verbatim>\<open>add_job(..., replace_existing=True)\<close> and \<^verbatim>\<open>remove_job\<close>, which raises for an
  unknown id.\<close>

definition add_job :: "string \<Rightarrow> job \<Rightarrow> jobstore \<Rightarrow> jobstore" where
  "add_job job_id j js = js(job_id \<mapsto> j)"

definition remove_job :: "string \<Rightarrow> jobstore \<Rightarrow> pyerror + jobstore" where
  "remove_job job_id js =
     (if js job_id = None then Inl JobLookupError else Inr (js(job_id := None)))"

definition job_ids :: "idval \<Rightarrow> string list" where
  "job_ids task_id =
     [''reminder_1day_'' @ id_text task_id,
      ''reminder_deadline_'' @ id_text task_id,
      ''overdue_check_'' @ id_text task_id]"

section \<open>The task manager\<close>

subsection \<open>Reminders\<close>

text \<open>
  \<^verbatim>\<open>_cancel_task_reminders\<close>: \<^verbatim>\<open>remove_job\<close> for the three job ids of the task, each in
  its own \<^verbatim>\<open>try\<close> whose handler passes.
\<close>

definition cancel_task_reminders :: "idval \<Rightarrow> jobstore \<Rightarrow> jobstore" where
  "cancel_task_reminders task_id js =
     fold (\<lambda>job_id js. case remove_job job_id js of Inl e \<Rightarrow> js | Inr js' \<Rightarrow> js')
          (job_ids task_id) js"

text \<open>
  \<^verbatim>\<open>_schedule_task_reminders\<close>: nothing without a deadline; an exception of \<^verbatim>\<open>strptime\<close>
  or of the subtraction is logged, before any job is added.
\<close>

definition schedule_task_reminders ::
  "datetime \<Rightarrow> idval \<Rightarrow> document \<Rightarrow> jobstore \<Rightarrow> jobstore"
where
  "schedule_task_reminders now task_id task_data js =
     (if \<not> truthy (dict_get task_data ''actual_deadline'') then js
      else
        (case strptime (dict_get task_data ''actual_deadline'') of
           Inl e \<Rightarrow> js
         | Inr deadline \<Rightarrow>
             (case minus_one_day deadline of
                Inl e \<Rightarrow> js
              | Inr reminder_date \<Rightarrow>
                  (let js1 = (if datetime_less now (DateTime reminder_date 0)
                              then add_job (''reminder_1day_'' @ id_text task_id)
                                     (SendTaskReminder (DateTime reminder_date 0) task_id
                                        ''1 day before deadline'') js
                              else js);
                       js2 = (if \<not> date_less deadline (dt_date now)
                              then add_job (''reminder_deadline_'' @ id_text task_id)
                                     (SendTaskReminder (DateTime deadline 0) task_id
                                        ''deadline today'') js1
                              else js1)
                   in add_job (''overdue_check_'' @ id_text task_id) (CheckOverdueTasks 1) js2))))"

definition get_task :: "idval \<Rightarrow> manager_state \<Rightarrow> document option" where
  "get_task task_id s = find_one (matches_id task_id) (tasks s)"

definition reschedule_task_reminders :: "datetime \<Rightarrow> idval \<Rightarrow> manager_state \<Rightarrow> manager_state" where
  "reschedule_task_reminders now task_id s =
     (let s1 = s\<lparr>jobs := cancel_task_reminders task_id (jobs s)\<rparr>
      in case get_task task_id s1 of
           None \<Rightarrow> s1
         | Some task \<Rightarrow> s1\<lparr>jobs := schedule_task_reminders now task_id task (jobs s1)\<rparr>)"

subsection \<open>Creating tasks\<close>

text \<open>
  The first part of \<^verbatim>\<open>create_task\<close>: the task document is built from the raw item, the
  description is validated and the deadline is resolved. An exception ends the call.
  \<open>resolve_deadline\<close> is the \<^verbatim>\<open>if\<close>/\<^verbatim>\<open>elif\<close> that sets \<^verbatim>\<open>actual_deadline\<close>; it returns
  the value the field has afterwards.
\<close>

definition resolve_deadline :: "datetime \<Rightarrow> pyval \<Rightarrow> pyval \<Rightarrow> pyerror + pyval" where
  "resolve_deadline now actual_deadline suggested_deadline =
     (if \<not> truthy actual_deadline \<and> truthy suggested_deadline then Inr suggested_deadline
      else if \<not> truthy actual_deadline then
        (case plus_timedelta (dt_date now) 7 of
           Inl e \<Rightarrow> Inl e
         | Inr default_deadline \<Rightarrow> Inr (PStr (strftime default_deadline)))
      else Inr actual_deadline)"

definition task_doc :: "datetime \<Rightarrow> pydict \<Rightarrow> pyval \<Rightarrow> pyerror + document" where
  "task_doc now task_data meeting_id =
     (case get_text task_data ''task'' [] of Inl e \<Rightarrow> Inl e | Inr task \<Rightarrow>
     (case get_text task_data ''assignee'' ''TBD'' of Inl e \<Rightarrow> Inl e | Inr assignee \<Rightarrow>
     (case get_text task_data ''priority'' ''medium'' of Inl e \<Rightarrow> Inl e | Inr priority \<Rightarrow>
     (case get_text task_data ''context'' [] of Inl e \<Rightarrow> Inl e | Inr context \<Rightarrow>
        (if strip task = [] then Inl ValueError
         else
           (case resolve_deadline now (dict_get task_data ''actual_deadline'')
                   (dict_get task_data ''suggested_deadline'') of
              Inl e \<Rightarrow> Inl e
            | Inr actual_deadline \<Rightarrow>
                Inr (Map.empty(
                  ''task'' \<mapsto> PStr (strip task),
                  ''assignee'' \<mapsto> PStr (strip assignee),
                  ''priority'' \<mapsto> PStr (lower priority),
                  ''context'' \<mapsto> PStr (strip context),
                  ''status'' \<mapsto> PStr ''pending'',
                  ''meeting_id'' \<mapsto> meeting_id,
                  ''transcript_id'' \<mapsto> dict_get task_data ''transcript_id'',
                  ''suggested_deadline'' \<mapsto> dict_get task_data ''suggested_deadline'',
                  ''actual_deadline'' \<mapsto> actual_deadline,
                  ''created_at'' \<mapsto> PDatetime now,
                  ''updated_at'' \<mapsto> PDatetime now))))))))"

text \<open>\<^verbatim>\<open>DatabaseManager.save_task\<close>: stamps \<^verbatim>\<open>created_at\<close>, inserts, returns \<^verbatim>\<open>str\<close> of
  the inserted id.\<close>

definition save_task :: "datetime \<Rightarrow> document \<Rightarrow> manager_state \<Rightarrow> string \<times> manager_state" where
  "save_task now task_data s =
     (case insert_one (task_data(''created_at'' \<mapsto> PDatetime now)) s of
        (oid, s') \<Rightarrow> (oid_str oid, s'))"

definition create_task ::
  "datetime \<Rightarrow> pydict \<Rightarrow> pyval \<Rightarrow> manager_state \<Rightarrow> (pyerror + idval) \<times> manager_state"
where
  "create_task now task_data meeting_id s =
     (case task_doc now task_data meeting_id of
        Inl e \<Rightarrow> (Inl e, s)
      | Inr doc \<Rightarrow>
          (case save_task now doc s of
             (task_id, s1) \<Rightarrow>
               (Inr (IdStr task_id),
                s1\<lparr>jobs := schedule_task_reminders now (IdStr task_id) doc (jobs s1)\<rparr>)))"

subsection \<open>Updating and deleting\<close>

text \<open>
  \<^verbatim>\<open>update_task\<close>: the patch is stamped with \<^verbatim>\<open>updated_at\<close> and applied to the document
  whose \<^verbatim>\<open>_id\<close> equals the given id; any exception makes the result \<^verbatim>\<open>False\<close>.
\<close>

definition update_task ::
  "datetime \<Rightarrow> idval \<Rightarrow> (string \<times> pyval) list \<Rightarrow> manager_state \<Rightarrow> bool \<times> manager_state"
where
  "update_task now task_id updates s =
     (let updates' = AList.update ''updated_at'' (PDatetime now) updates
      in case update_one (matches_id task_id) updates' (tasks s) of
           Inl e \<Rightarrow> (False, s)
         | Inr (modified_count, ds) \<Rightarrow>
             (let s1 = s\<lparr>tasks := ds\<rparr>
              in if modified_count > 0 then
                   (True, if map_of updates' ''actual_deadline'' \<noteq> None
                          then reschedule_task_reminders now task_id s1 else s1)
                 else (False, s1)))"

definition mark_task_completed :: "datetime \<Rightarrow> idval \<Rightarrow> manager_state \<Rightarrow> bool \<times> manager_state" where
  "mark_task_completed now task_id s = update_task now task_id [(''status'', PStr ''completed'')] s"

definition mark_task_in_progress :: "datetime \<Rightarrow> idval \<Rightarrow> manager_state \<Rightarrow> bool \<times> manager_state" where
  "mark_task_in_progress now task_id s =
     update_task now task_id [(''status'', PStr ''in_progress'')] s"

text \<open>
  \<^verbatim>\<open>delete_task\<close>: the reminders are cancelled, then the document is deleted.
  \<open>delete_task_trace\<close> gives the result together with the states the call passes
  through, in the order of the statements: the state when \<^verbatim>\<open>_cancel_task_reminders\<close> has
  returned, and the state when \<^verbatim>\<open>delete_one\<close> has returned. \<open>delete_task\<close> is the result
  with the last of them.
\<close>

definition delete_task_trace :: "idval \<Rightarrow> manager_state \<Rightarrow> bool \<times> manager_state list" where
  "delete_task_trace task_id s =
     (let s1 = s\<lparr>jobs := cancel_task_reminders task_id (jobs s)\<rparr>
      in case delete_one (matches_id task_id) (tasks s1) of
           (deleted_count, ds) \<Rightarrow> (deleted_count > 0, [s1, s1\<lparr>tasks := ds\<rparr>]))"

definition delete_task :: "idval \<Rightarrow> manager_state \<Rightarrow> bool \<times> manager_state" where
  "delete_task task_id s =
     (case delete_task_trace task_id s of (deleted, states) \<Rightarrow> (deleted, last states))"

subsection \<open>Queries and statistics\<close>

definition get_overdue_tasks :: "datetime \<Rightarrow> manager_state \<Rightarrow> document list" where
  "get_overdue_tasks now s =
     (let today = strftime (dt_date now)
      in sort_key deadline_key
           (filter (\<lambda>d. field_in d ''status'' [''pending'', ''in_progress''] \<and>
                        field_lt d ''actual_deadline'' today) (tasks s)))"

definition get_upcoming_tasks :: "datetime \<Rightarrow> nat \<Rightarrow> manager_state \<Rightarrow> pyerror + document list" where
  "get_upcoming_tasks now days_ahead s =
     (case plus_timedelta (dt_date now) days_ahead of
        Inl e \<Rightarrow> Inl e
      | Inr future \<Rightarrow>
          Inr (sort_key deadline_key
                 (filter (\<lambda>d. field_in d ''status'' [''pending'', ''in_progress''] \<and>
                              field_gte d ''actual_deadline'' (strftime (dt_date now)) \<and>
                              field_lte d ''actual_deadline'' (strftime future)) (tasks s))))"

record statistics =
  total_tasks :: nat
  pending_tasks :: nat
  in_progress_tasks :: nat
  completed_tasks :: nat
  overdue_tasks :: nat
  upcoming_tasks :: nat

definition get_task_statistics :: "datetime \<Rightarrow> manager_state \<Rightarrow> pyerror + statistics" where
  "get_task_statistics now s =
     (case get_upcoming_tasks now 7 s of
        Inl e \<Rightarrow> Inl e
      | Inr upcoming \<Rightarrow>
          Inr \<lparr>total_tasks = count_documents (\<lambda>d. True) (tasks s),
               pending_tasks = count_documents (status_is ''pending'') (tasks s),
               in_progress_tasks = count_documents (status_is ''in_progress'') (tasks s),
               completed_tasks = count_documents (status_is ''completed'') (tasks s),
               overdue_tasks = length (get_overdue_tasks now s),
               upcoming_tasks = length upcoming\<rparr>)"

subsection \<open>The deadline heuristic\<close>

definition urgent_keywords :: "string list" where
  "urgent_keywords =
     [''urgent'', ''asap'', ''immediately'', ''today'', ''tomorrow'', ''deadline'', ''critical'']"

definition medium_keywords :: "string list" where
  "medium_keywords = [''next week'', ''soon'', ''priority'', ''important'']"

text \<open>\<^verbatim>\<open>OllamaNLPProcessor._suggest_deadline\<close>.\<close>

definition suggest_deadline :: "datetime \<Rightarrow> string \<Rightarrow> pyerror + string" where
  "suggest_deadline now task_text =
     (let task_lower = lower task_text;
          days_ahead = (if list_ex (\<lambda>keyword. py_in keyword task_lower) urgent_keywords then 1
                        else if list_ex (\<lambda>keyword. py_in keyword task_lower) medium_keywords then 3
                        else 7)
      in case plus_timedelta (dt_date now) days_ahead of
           Inl e \<Rightarrow> Inl e
         | Inr deadline \<Rightarrow> Inr (strftime deadline))"

subsection \<open>Cleaning of action items\<close>

text \<open>
  The body of the loop of \<^verbatim>\<open>OllamaNLPProcessor._parse_action_items\<close> over the decoded items
  (each a dictionary): an item without the key \<^verbatim>\<open>task\<close> is skipped, the text fields are
  cleaned as in \<^verbatim>\<open>create_task\<close>, and the priority is validated.
\<close>

definition clean_action_item :: "pydict \<Rightarrow> pyerror + pydict option" where
  "clean_action_item item =
     (if item ''task'' = None then Inr None
      else
       (case get_text item ''task'' [] of Inl e \<Rightarrow> Inl e | Inr task \<Rightarrow>
       (case get_text item ''assignee'' ''TBD'' of Inl e \<Rightarrow> Inl e | Inr assignee \<Rightarrow>
       (case get_text item ''priority'' ''medium'' of Inl e \<Rightarrow> Inl e | Inr priority \<Rightarrow>
       (case get_text item ''context'' [] of Inl e \<Rightarrow> Inl e | Inr ctx \<Rightarrow>
          Inr (Some (Map.empty(
            ''task'' \<mapsto> PStr (strip task),
            ''assignee'' \<mapsto> PStr (strip assignee),
            ''priority'' \<mapsto>
               PStr (if lower priority \<in> set [''high'', ''medium'', ''low'']
                     then lower priority else ''medium''),
            ''context'' \<mapsto> PStr (strip ctx)))))))))"

section \<open>Notions used in the statements\<close>

text \<open>A text field of a raw item that is a string or missing.\<close>

definition text_or_absent :: "pydict \<Rightarrow> string \<Rightarrow> bool" where
  "text_or_absent d key = (case d key of None \<Rightarrow> True | Some (PStr s) \<Rightarrow> True | Some _ \<Rightarrow> False)"

text \<open>A raw item whose \<^verbatim>\<open>task\<close> is missing, empty or made of whitespace only.\<close>

definition blank_task :: "pydict \<Rightarrow> bool" where
  "blank_task d =
     (case d ''task'' of None \<Rightarrow> True | Some (PStr t) \<Rightarrow> list_all isspace t | Some _ \<Rightarrow> False)"

text \<open>
  The offset of the deadline heuristic in the words of its description: 1 day when an
  urgent keyword occurs in the lower-cased text, else 3 days when a medium keyword occurs,
  else 7 days.
\<close>

definition deadline_offset :: "string \<Rightarrow> nat" where
  "deadline_offset text =
     (if \<exists>k \<in> set [''urgent'', ''asap'', ''immediately'', ''today'', ''tomorrow'', ''deadline'',
                     ''critical'']. sublist k (lower text) then 1
      else if \<exists>k \<in> set [''next week'', ''soon'', ''priority'', ''important'']. sublist k (lower text)
        then 3
      else 7)"

text \<open>The patch that \<^verbatim>\<open>update_task\<close> sends: the caller's patch with \<^verbatim>\<open>updated_at\<close> set to the
  clock reading, as BSON stores it.\<close>

definition stamped_patch :: "datetime \<Rightarrow> (string \<times> pyval) list \<Rightarrow> (string \<times> pyval) list" where
  "stamped_patch now updates = encode_patch (AList.update ''updated_at'' (PDatetime now) updates)"

text \<open>
  A scenario: on 2024-01-15 a task without deadline fields is created in the empty store;
  on 2024-01-16 it is marked completed through the \<^verbatim>\<open>ObjectId\<close> of its document.
\<close>

definition scenario_created :: manager_state where
  "scenario_created =
     snd (create_task (DateTime (Date 2024 1 15) 0) [''task'' \<mapsto> PStr ''Prepare slides'']
            PNone empty_state)"

definition scenario_completed :: manager_state where
  "scenario_completed =
     snd (mark_task_completed (DateTime (Date 2024 1 16) 0) (IdObject 0) scenario_created)"

text \<open>
  The operations of the manager that change the store, and the state reached from the
  empty store by a sequence of them.
\<close>

datatype operation =
    CreateTask datetime pydict pyval
  | UpdateTask datetime idval "(string \<times> pyval) list"
  | MarkInProgress datetime idval
  | MarkCompleted datetime idval
  | DeleteTask idval

fun apply_operation :: "operation \<Rightarrow> manager_state \<Rightarrow> manager_state" where
  "apply_operation (CreateTask now task_data meeting_id) s =
     snd (create_task now task_data meeting_id s)"
| "apply_operation (UpdateTask now task_id updates) s = snd (update_task now task_id updates s)"
| "apply_operation (MarkInProgress now task_id) s = snd (mark_task_in_progress now task_id s)"
| "apply_operation (MarkCompleted now task_id) s = snd (mark_task_completed now task_id s)"
| "apply_operation (DeleteTask task_id) s = snd (delete_task task_id s)"

definition run :: "operation list \<Rightarrow> manager_state" where
  "run ops = fold apply_operation ops empty_state"

text \<open>
  The three statuses of a task. \<open>keeps_status\<close> holds for an operation that can only store
  one of them: every operation but an \<^verbatim>\<open>update_task\<close> whose patch sets \<^verbatim>\<open>status\<close> to
  something else. A well-formed document has one of the three statuses and an
  \<^verbatim>\<open>ObjectId\<close> as \<^verbatim>\<open>_id\<close>.
\<close>

definition status_values :: "pyval set" where
  "status_values = {PStr ''pending'', PStr ''in_progress'', PStr ''completed''}"

fun keeps_status :: "operation \<Rightarrow> bool" where
  "keeps_status (UpdateTask now task_id updates) =
     (case map_of updates ''status'' of None \<Rightarrow> True | Some v \<Rightarrow> v \<in> status_values)"
| "keeps_status _ = True"

definition well_formed_doc :: "document \<Rightarrow> bool" where
  "well_formed_doc d =
     ((\<exists>v \<in> status_values. d ''status'' = Some v) \<and> (\<exists>n. d ''_id'' = Some (PObjectId n)))"

text \<open>A task that is still open: its status is \<^verbatim>\<open>pending\<close> or \<^verbatim>\<open>in_progress\<close>.\<close>

definition open_status :: "document \<Rightarrow> bool" where
  "open_status d = (status_is ''pending'' d \<or> status_is ''in_progress'' d)"

section \<open>Creating a task\<close>

lemma strip_blank: "list_all isspace t \<Longrightarrow> strip t = []"
proof -
  assume "list_all isspace t"
  then have h: "dropWhile isspace t = []" by (simp add: list_all_iff)
  show ?thesis unfolding strip_def h by simp
qed

lemma strip_empty_iff: "strip t = [] \<longleftrightarrow> list_all isspace t"
proof
  assume e: "strip t = []"
  have "dropWhile isspace t = []"
  proof (rule ccontr)
    assume ne: "dropWhile isspace t \<noteq> []"
    then have "\<not> isspace (hd (dropWhile isspace t))" by (rule hd_dropWhile)
    moreover have "hd (dropWhile isspace t) \<in> set (dropWhile isspace t)" using ne by simp
    ultimately show False using e by (auto simp: strip_def dropWhile_eq_Nil_conv)
  qed
  then show "list_all isspace t" by (simp add: dropWhile_eq_Nil_conv list_all_iff)
qed (rule strip_blank)

lemma insert_one_tasks:
  "insert_one doc s = (oid_counter s,
     s\<lparr>tasks := tasks s @ [(map_option bson \<circ> doc)(''_id'' \<mapsto> PObjectId (oid_counter s))],
       oid_counter := Suc (oid_counter s)\<rparr>)"
  by (simp add: insert_one_def Let_def)

lemma create_task_Inl:
  "task_doc now task_data meeting_id = Inl e \<Longrightarrow>
   create_task now task_data meeting_id s = (Inl e, s)"
  by (simp add: create_task_def)

lemma create_task_Inr:
  assumes "task_doc now task_data meeting_id = Inr doc"
  shows "create_task now task_data meeting_id s =
     (Inr (IdStr (oid_str (oid_counter s))),
      s\<lparr>tasks := tasks s @ [(map_option bson \<circ> doc(''created_at'' \<mapsto> PDatetime now))
                             (''_id'' \<mapsto> PObjectId (oid_counter s))],
        oid_counter := Suc (oid_counter s),
        jobs := schedule_task_reminders now (IdStr (oid_str (oid_counter s))) doc (jobs s)\<rparr>)"
  using assms by (simp add: create_task_def save_task_def insert_one_tasks)

lemma get_text_cases:
  "get_text d key dflt = Inl AttributeError \<or> (\<exists>t. get_text d key dflt = Inr t)"
  by (simp add: get_text_def split: option.split pyval.split)

lemma get_text_text_or_absent: "text_or_absent d key \<Longrightarrow> \<exists>t. get_text d key dflt = Inr t"
  by (simp add: get_text_def text_or_absent_def split: option.splits pyval.splits)

lemma get_text_blank: "blank_task d \<Longrightarrow> \<exists>t. get_text d ''task'' [] = Inr t \<and> strip t = []"
  by (auto simp: get_text_def blank_task_def strip_blank split: option.splits pyval.splits)

lemma task_doc_blank_fails:
  assumes "blank_task task_data"
  shows "\<exists>e. task_doc now task_data meeting_id = Inl e"
proof -
  from get_text_blank[OF assms] obtain t
    where t: "get_text task_data ''task'' [] = Inr t" "strip t = []"
    by blast
  show ?thesis
    using get_text_cases[of task_data "''assignee''" "''TBD''"]
      get_text_cases[of task_data "''priority''" "''medium''"]
      get_text_cases[of task_data "''context''" "[]"] t
    unfolding task_doc_def by (elim disjE exE) simp_all
qed

lemma task_doc_blank_ValueError:
  assumes "blank_task task_data" "text_or_absent task_data ''assignee''"
    "text_or_absent task_data ''priority''" "text_or_absent task_data ''context''"
  shows "task_doc now task_data meeting_id = Inl ValueError"
proof -
  from get_text_blank[OF assms(1)] obtain t
    where t: "get_text task_data ''task'' [] = Inr t" "strip t = []"
    by blast
  from get_text_text_or_absent[OF assms(2)] obtain a
    where a: "get_text task_data ''assignee'' ''TBD'' = Inr a" by blast
  from get_text_text_or_absent[OF assms(3)] obtain p
    where p: "get_text task_data ''priority'' ''medium'' = Inr p" by blast
  from get_text_text_or_absent[OF assms(4)] obtain c
    where c: "get_text task_data ''context'' [] = Inr c" by blast
  show ?thesis unfolding task_doc_def by (simp add: t a p c)
qed

text \<open>
  C5. A raw item whose \<^verbatim>\<open>task\<close> is missing, empty or whitespace-only makes \<^verbatim>\<open>create_task\<close>
  raise, and the state after the failed call is the state before it: no document is
  inserted and no job is scheduled. The exception is the \<^verbatim>\<open>ValueError\<close> of the validation
  whenever the other text fields of the item are strings or missing.
\<close>

theorem create_task_blank_rejected:
  assumes "blank_task task_data"
  shows "(\<exists>e. create_task now task_data meeting_id s = (Inl e, s)) \<and>
         (text_or_absent task_data ''assignee'' \<and> text_or_absent task_data ''priority'' \<and>
          text_or_absent task_data ''context'' \<longrightarrow>
            create_task now task_data meeting_id s = (Inl ValueError, s))"
  using task_doc_blank_fails[OF assms, of now meeting_id]
    task_doc_blank_ValueError[OF assms, of now meeting_id]
  by (auto simp: create_task_Inl)

theorem create_task_blank_rejected_witness:
  "blank_task [''task'' \<mapsto> PStr ''  ''] \<and>
   create_task (DateTime (Date 2024 1 15) 0) [''task'' \<mapsto> PStr ''  ''] PNone empty_state =
     (Inl ValueError, empty_state)"
  using create_task_blank_rejected[of "[''task'' \<mapsto> PStr ''  '']"
      "DateTime (Date 2024 1 15) 0" PNone empty_state]
  by (simp add: blank_task_def text_or_absent_def isspace_def)

lemma task_doc_InrE:
  assumes "task_doc now task_data meeting_id = Inr doc"
  obtains task assignee priority ctx actual_deadline where
    "get_text task_data ''task'' [] = Inr task" "strip task \<noteq> []"
    "get_text task_data ''assignee'' ''TBD'' = Inr assignee"
    "get_text task_data ''priority'' ''medium'' = Inr priority"
    "get_text task_data ''context'' [] = Inr ctx"
    "resolve_deadline now (dict_get task_data ''actual_deadline'')
       (dict_get task_data ''suggested_deadline'') = Inr actual_deadline"
    "doc = Map.empty(
                  ''task'' \<mapsto> PStr (strip task),
                  ''assignee'' \<mapsto> PStr (strip assignee),
                  ''priority'' \<mapsto> PStr (lower priority),
                  ''context'' \<mapsto> PStr (strip ctx),
                  ''status'' \<mapsto> PStr ''pending'',
                  ''meeting_id'' \<mapsto> meeting_id,
                  ''transcript_id'' \<mapsto> dict_get task_data ''transcript_id'',
                  ''suggested_deadline'' \<mapsto> dict_get task_data ''suggested_deadline'',
                  ''actual_deadline'' \<mapsto> actual_deadline,
                  ''created_at'' \<mapsto> PDatetime now,
                  ''updated_at'' \<mapsto> PDatetime now)"
  using assms unfolding task_doc_def
  by (simp split: sum.splits if_splits)

lemma create_task_InrE:
  assumes "create_task now task_data meeting_id s = (Inr task_id, s')"
  obtains doc where "task_doc now task_data meeting_id = Inr doc"
    "task_id = IdStr (oid_str (oid_counter s))"
    "s' = s\<lparr>tasks := tasks s @ [(map_option bson \<circ> doc(''created_at'' \<mapsto> PDatetime now))
                             (''_id'' \<mapsto> PObjectId (oid_counter s))],
        oid_counter := Suc (oid_counter s),
        jobs := schedule_task_reminders now (IdStr (oid_str (oid_counter s))) doc (jobs s)\<rparr>"
proof (cases "task_doc now task_data meeting_id")
  case (Inl e)
  with assms show ?thesis by (simp add: create_task_Inl)
next
  case (Inr doc)
  from assms have "task_id = IdStr (oid_str (oid_counter s))"
    and "s' = s\<lparr>tasks := tasks s @ [(map_option bson \<circ> doc(''created_at'' \<mapsto> PDatetime now))
                             (''_id'' \<mapsto> PObjectId (oid_counter s))],
        oid_counter := Suc (oid_counter s),
        jobs := schedule_task_reminders now (IdStr (oid_str (oid_counter s))) doc (jobs s)\<rparr>"
    unfolding create_task_Inr[OF Inr] by blast+
  with Inr show ?thesis by (rule that)
qed

text \<open>A call of \<open>create_task\<close> that builds its document succeeds.\<close>

lemma create_task_succeeds:
  assumes "\<not> isl (task_doc now task_data meeting_id)"
  shows "create_task now task_data meeting_id s =
           (Inr (IdStr (oid_str (oid_counter s))), snd (create_task now task_data meeting_id s))"
proof -
  from assms obtain doc where "task_doc now task_data meeting_id = Inr doc"
    by (cases "task_doc now task_data meeting_id") auto
  then show ?thesis by (simp add: create_task_Inr)
qed







subsection \<open>Deadline\<close>

lemma plus_timedelta_Inr: "plus_timedelta d n = Inr r \<Longrightarrow> r = add_days d n"
  by (simp add: plus_timedelta_def Let_def split: if_splits)

lemma resolve_deadline_Inr:
  assumes "resolve_deadline now ad sd = Inr v"
  shows "v = (if truthy ad then ad else if truthy sd then sd
              else PStr (strftime (add_days (dt_date now) 7)))"
  using assms
  by (auto simp: resolve_deadline_def split: if_splits sum.splits dest: plus_timedelta_Inr)

text \<open>
  C3, as the code has it. When \<^verbatim>\<open>create_task\<close> succeeds, the stored \<^verbatim>\<open>actual_deadline\<close> is
  the provided \<^verbatim>\<open>actual_deadline\<close> if that is present and not empty; else the provided
  \<^verbatim>\<open>suggested_deadline\<close> if that is present and not empty; else the current date plus
  seven days, printed as \<^verbatim>\<open>YYYY-MM-DD\<close>. (A string is stored as it is; \<open>bson\<close> only
  cuts the microseconds of a datetime.)
\<close>

theorem create_task_deadline_resolution:
  assumes "create_task now task_data meeting_id s = (Inr task_id, s')"
  shows "\<exists>doc. tasks s' = tasks s @ [doc] \<and>
     doc ''actual_deadline'' = Some (bson
       (if truthy (dict_get task_data ''actual_deadline'')
          then dict_get task_data ''actual_deadline''
        else if truthy (dict_get task_data ''suggested_deadline'')
          then dict_get task_data ''suggested_deadline''
        else PStr (strftime (add_days (dt_date now) 7))))"
proof -
  from assms obtain doc where d: "task_doc now task_data meeting_id = Inr doc"
    and s': "s' = s\<lparr>tasks := tasks s @ [(map_option bson \<circ> doc(''created_at'' \<mapsto> PDatetime now))
                             (''_id'' \<mapsto> PObjectId (oid_counter s))],
        oid_counter := Suc (oid_counter s),
        jobs := schedule_task_reminders now (IdStr (oid_str (oid_counter s))) doc (jobs s)\<rparr>"
    by (rule create_task_InrE)
  from d obtain v where r: "resolve_deadline now (dict_get task_data ''actual_deadline'')
       (dict_get task_data ''suggested_deadline'') = Inr v"
    and dv: "doc ''actual_deadline'' = Some v"
    by (rule task_doc_InrE) simp
  let ?stored = "(map_option bson \<circ> doc(''created_at'' \<mapsto> PDatetime now))
                             (''_id'' \<mapsto> PObjectId (oid_counter s))"
  have "?stored ''actual_deadline'' = Some (bson v)" using dv by simp
  moreover have "tasks s' = tasks s @ [?stored]" by (simp add: s')
  ultimately show ?thesis
    unfolding resolve_deadline_Inr[OF r, symmetric] by (intro exI[of _ ?stored] conjI)
qed

theorem create_task_deadline_resolution_witness:
  "\<exists>doc. tasks (snd (create_task (DateTime (Date 2024 1 15) 0)
         [''task'' \<mapsto> PStr ''Send report'', ''suggested_deadline'' \<mapsto> PStr ''2024-01-18'']
         PNone empty_state)) = [doc] \<and>
      doc ''actual_deadline'' = Some (PStr ''2024-01-18'')"
proof -
  let ?item = "[''task'' \<mapsto> PStr ''Send report'', ''suggested_deadline'' \<mapsto> PStr ''2024-01-18'']"
  have "\<not> isl (task_doc (DateTime (Date 2024 1 15) 0) ?item PNone)" by code_simp
  from create_task_deadline_resolution[OF create_task_succeeds[OF this, of empty_state]]
  show ?thesis by (auto simp: empty_state_def dict_get_def)
qed

text \<open>
  C3, as stated, fails: an \<^verbatim>\<open>actual_deadline\<close> that is present but is the empty string is
  not persisted; the suggested deadline is.
\<close>

theorem create_task_empty_deadline_counterexample:
  "map (\<lambda>d. d ''actual_deadline'')
     (tasks (snd (create_task (DateTime (Date 2024 1 15) 0)
        [''task'' \<mapsto> PStr ''Send report'', ''actual_deadline'' \<mapsto> PStr [],
         ''suggested_deadline'' \<mapsto> PStr ''2024-02-01''] PNone empty_state))) =
   [Some (PStr ''2024-02-01'')]"
  by code_simp

subsection \<open>Priority\<close>

lemma clean_action_item_priority:
  assumes "clean_action_item item = Inr (Some cleaned)"
  shows "cleaned ''priority'' \<in>
           {Some (PStr ''high''), Some (PStr ''medium''), Some (PStr ''low'')}"
  using assms unfolding clean_action_item_def
  by (auto split: if_splits sum.splits)

text \<open>
  C2. \<^verbatim>\<open>create_task\<close> lower-cases the priority and stores it without comparing it to
  \<^verbatim>\<open>high\<close>, \<^verbatim>\<open>medium\<close> and \<^verbatim>\<open>low\<close>: the priority \<^verbatim>\<open>urgent\<close> is stored as \<^verbatim>\<open>urgent\<close>,
  where the cleaning of \<^verbatim>\<open>_parse_action_items\<close> stores \<^verbatim>\<open>medium\<close>.
\<close>

theorem create_task_priority_not_validated:
  "map (\<lambda>d. d ''priority'')
     (tasks (snd (create_task (DateTime (Date 2024 1 15) 0)
        [''task'' \<mapsto> PStr ''Ship release'', ''priority'' \<mapsto> PStr ''urgent''] PNone empty_state))) =
   [Some (PStr ''urgent'')]"
  by code_simp

section \<open>Dates and the deadline heuristic\<close>

lemma py_in_sublist: "py_in k s = sublist k s"
  by (induction s) (simp_all add: sublist_Cons_right)

lemma digit_is_digit: "k < 10 \<Longrightarrow> is_digit (digit k)"
  by (simp add: digit_def is_digit_def)

lemma digit_val_digit: "k < 10 \<Longrightarrow> digit_val (digit k) = k"
  by (simp add: digit_def digit_val_def)

lemma digit_literals:
  "digit 0 = CHR ''0''" "digit 1 = CHR ''1''" "digit 2 = CHR ''2''" "digit 3 = CHR ''3''"
  "digit 4 = CHR ''4''" "digit 5 = CHR ''5''" "digit 6 = CHR ''6''" "digit 7 = CHR ''7''"
  "digit 8 = CHR ''8''" "digit 9 = CHR ''9''" "digit (Suc 0) = CHR ''1''"
  by code_simp+

lemma parse_month_pad2:
  assumes "1 \<le> m" "m \<le> 12"
  shows "parse_month (pad2 m @ CHR ''-'' # r) = Some (m, CHR ''-'' # r)"
proof -
  from assms have "m = 1 \<or> m = 2 \<or> m = 3 \<or> m = 4 \<or> m = 5 \<or> m = 6 \<or> m = 7 \<or> m = 8 \<or> m = 9 \<or>
      m = 10 \<or> m = 11 \<or> m = 12" by arith
  then show ?thesis
    by (elim disjE) (simp_all add: pad2_def digit_literals is_digit_def digit_val_def)
qed

lemma parse_day_pad2:
  assumes "1 \<le> d" "d \<le> 31"
  shows "parse_day (pad2 d) = Some (d, [])"
proof -
  from assms have "d = 1 \<or> d = 2 \<or> d = 3 \<or> d = 4 \<or> d = 5 \<or> d = 6 \<or> d = 7 \<or> d = 8 \<or> d = 9 \<or>
      d = 10 \<or> d = 11 \<or> d = 12 \<or> d = 13 \<or> d = 14 \<or> d = 15 \<or> d = 16 \<or> d = 17 \<or> d = 18 \<or>
      d = 19 \<or> d = 20 \<or> d = 21 \<or> d = 22 \<or> d = 23 \<or> d = 24 \<or> d = 25 \<or> d = 26 \<or> d = 27 \<or>
      d = 28 \<or> d = 29 \<or> d = 30 \<or> d = 31" by arith
  then show ?thesis
    by (elim disjE) (simp_all add: pad2_def digit_literals is_digit_def digit_val_def)
qed

lemma days_in_month_le: "days_in_month y m \<le> 31"
  by (simp add: days_in_month_def)

lemma year_digits:
  assumes "y \<le> 9999"
  shows "1000 * (y div 1000 mod 10) + 100 * (y div 100 mod 10) + 10 * (y div 10 mod 10) + y mod 10 = (y::nat)"
proof -
  define q1 where "q1 = y div 10"
  define q2 where "q2 = q1 div 10"
  define q3 where "q3 = q2 div 10"
  have d10: "y div 10 = q1" by (simp add: q1_def)
  have d100: "y div 100 = q2" unfolding q2_def q1_def by (simp add: div_mult2_eq[symmetric])
  have d1000: "y div 1000 = q3" unfolding q3_def q2_def q1_def by (simp add: div_mult2_eq[symmetric])
  have e0: "y = 10 * q1 + y mod 10" unfolding q1_def by simp
  have e1: "q1 = 10 * q2 + q1 mod 10" unfolding q2_def by simp
  have e2: "q2 = 10 * q3 + q2 mod 10" unfolding q3_def by simp
  have "y < 10 * 1000" using assms by simp
  then have "y div 1000 < 10" by (rule less_mult_imp_div_less)
  then have e3: "q3 mod 10 = q3" by (simp add: d1000)
  show ?thesis unfolding d10 d100 d1000 e3 using e0 e1 e2 by linarith
qed

lemma strptime_strftime:
  assumes "valid_date d"
  shows "strptime_str (strftime d) = Inr d"
proof -
  from assms have y: "year d \<le> 9999" and m: "1 \<le> month d" "month d \<le> 12"
    and dd: "1 \<le> day d" "day d \<le> 31"
    using days_in_month_le[of "year d" "month d"] by (auto simp: valid_date_def MAXYEAR_def)
  have "strptime_str (strftime d) =
     (let dt = Date (1000 * (year d div 1000 mod 10) + 100 * (year d div 100 mod 10) +
                     10 * (year d div 10 mod 10) + year d mod 10) (month d) (day d)
      in if valid_date dt then Inr dt else Inl ValueError)"
    by (simp add: strftime_def pad4_def digit_is_digit digit_val_digit
        parse_month_pad2[OF m] parse_day_pad2[OF dd])
  also have "\<dots> = Inr d" using assms by (simp add: year_digits[OF y])
  finally show ?thesis .
qed

lemma year_next_day: "year (next_day d) \<le> Suc (year d) \<and> year d \<le> year (next_day d)"
  by (simp add: next_day_def)

lemma year_add_days: "year (add_days d n) \<le> year d + n \<and> year d \<le> year (add_days d n)"
proof (induction n arbitrary: d)
  case 0
  show ?case by simp
next
  case (Suc n)
  from Suc[of "next_day d"] year_next_day[of d] show ?case by simp
qed

lemma valid_next_day:
  assumes "valid_date d" "year (next_day d) \<le> MAXYEAR"
  shows "valid_date (next_day d)"
  using assms by (auto simp: valid_date_def next_day_def days_in_month_def split: if_splits)

lemma valid_add_days:
  "valid_date d \<Longrightarrow> year (add_days d n) \<le> MAXYEAR \<Longrightarrow> valid_date (add_days d n)"
proof (induction n arbitrary: d)
  case 0
  then show ?case by simp
next
  case (Suc n)
  from Suc.prems(2) year_add_days[of "next_day d" n] have "year (next_day d) \<le> MAXYEAR" by simp
  with Suc.prems(1) have "valid_date (next_day d)" by (rule valid_next_day)
  with Suc.IH[of "next_day d"] Suc.prems(2) show ?case by simp
qed

lemma plus_timedelta_valid:
  "valid_date d \<Longrightarrow> plus_timedelta d n = Inr r \<Longrightarrow> valid_date r"
  by (auto simp: plus_timedelta_def Let_def valid_add_days split: if_splits)

lemma plus_timedelta_in_range:
  "year d + n \<le> MAXYEAR \<Longrightarrow> plus_timedelta d n = Inr (add_days d n)"
  using year_add_days[of d n] by (simp add: plus_timedelta_def Let_def)

lemma suggest_deadline_offset:
  "suggest_deadline now text =
     (case plus_timedelta (dt_date now) (deadline_offset text) of
        Inl e \<Rightarrow> Inl e | Inr d \<Rightarrow> Inr (strftime d))"
  unfolding suggest_deadline_def deadline_offset_def urgent_keywords_def medium_keywords_def
    Let_def list_ex_iff py_in_sublist ..

text \<open>
  C7. \<^verbatim>\<open>_suggest_deadline\<close> is a function of the task text and the current date: the
  result is the current date plus \<open>deadline_offset\<close> days (1 if an urgent keyword occurs in
  the lower-cased text, else 3 if a medium keyword occurs, else 7), printed as
  \<^verbatim>\<open>YYYY-MM-DD\<close>, so that \<^verbatim>\<open>strptime\<close> reads the date back. The addition overflows only
  within the last days of the year 9999.
\<close>

theorem suggest_deadline_rule:
  "suggest_deadline now text =
     (case plus_timedelta (dt_date now) (deadline_offset text) of
        Inl e \<Rightarrow> Inl e | Inr d \<Rightarrow> Inr (strftime d)) \<and>
   (year (dt_date now) + deadline_offset text \<le> MAXYEAR \<longrightarrow>
      suggest_deadline now text =
        Inr (strftime (add_days (dt_date now) (deadline_offset text)))) \<and>
   (dt_date now' = dt_date now \<longrightarrow> suggest_deadline now' text = suggest_deadline now text) \<and>
   (\<forall>r. valid_date (dt_date now) \<and> suggest_deadline now text = Inr r \<longrightarrow>
      strptime_str r = Inr (add_days (dt_date now) (deadline_offset text)))"
proof (intro conjI impI allI)
  show "suggest_deadline now text =
     (case plus_timedelta (dt_date now) (deadline_offset text) of
        Inl e \<Rightarrow> Inl e | Inr d \<Rightarrow> Inr (strftime d))"
    by (rule suggest_deadline_offset)
next
  assume "year (dt_date now) + deadline_offset text \<le> MAXYEAR"
  then show "suggest_deadline now text =
        Inr (strftime (add_days (dt_date now) (deadline_offset text)))"
    by (simp add: suggest_deadline_offset plus_timedelta_in_range)
next
  assume "dt_date now' = dt_date now"
  then show "suggest_deadline now' text = suggest_deadline now text"
    by (simp add: suggest_deadline_offset)
next
  fix r
  assume a: "valid_date (dt_date now) \<and> suggest_deadline now text = Inr r"
  then obtain d where d: "plus_timedelta (dt_date now) (deadline_offset text) = Inr d"
    and r: "r = strftime d"
    by (auto simp: suggest_deadline_offset split: sum.splits)
  from a d have "valid_date d" by (auto intro: plus_timedelta_valid)
  then show "strptime_str r = Inr (add_days (dt_date now) (deadline_offset text))"
    using plus_timedelta_Inr[OF d] r by (simp add: strptime_strftime)
qed



theorem suggest_deadline_rule_witness:
  "suggest_deadline (DateTime (Date 2024 1 15) 0) ''Send the report ASAP'' = Inr ''2024-01-16'' \<and>
   suggest_deadline (DateTime (Date 2024 1 15) 0) ''Review budget next week'' = Inr ''2024-01-18'' \<and>
   suggest_deadline (DateTime (Date 2024 1 15) 0) ''Book a room'' = Inr ''2024-01-22''"
proof -
  let ?now = "DateTime (Date 2024 1 15) 0"
  have o1: "year (dt_date ?now) + deadline_offset ''Send the report ASAP'' \<le> MAXYEAR"
    and o2: "year (dt_date ?now) + deadline_offset ''Review budget next week'' \<le> MAXYEAR"
    and o3: "year (dt_date ?now) + deadline_offset ''Book a room'' \<le> MAXYEAR"
    by code_simp+
  have s1: "strftime (add_days (dt_date ?now) (deadline_offset ''Send the report ASAP'')) =
              ''2024-01-16''"
    and s2: "strftime (add_days (dt_date ?now) (deadline_offset ''Review budget next week'')) =
              ''2024-01-18''"
    and s3: "strftime (add_days (dt_date ?now) (deadline_offset ''Book a room'')) = ''2024-01-22''"
    by code_simp+
  from suggest_deadline_rule[of ?now "''Send the report ASAP''" ?now] o1
  have "suggest_deadline ?now ''Send the report ASAP'' = Inr ''2024-01-16''"
    unfolding s1 by blast
  moreover from suggest_deadline_rule[of ?now "''Review budget next week''" ?now] o2
  have "suggest_deadline ?now ''Review budget next week'' = Inr ''2024-01-18''"
    unfolding s2 by blast
  moreover from suggest_deadline_rule[of ?now "''Book a room''" ?now] o3
  have "suggest_deadline ?now ''Book a room'' = Inr ''2024-01-22''"
    unfolding s3 by blast
  ultimately show ?thesis by blast
qed

section \<open>Deleting a task and cancelling its reminders\<close>









lemma delete_task_unfold:
  "delete_task task_id s =
     (let s1 = s\<lparr>jobs := cancel_task_reminders task_id (jobs s)\<rparr>
      in case delete_one (matches_id task_id) (tasks s1) of
           (deleted_count, ds) \<Rightarrow> (deleted_count > 0, s1\<lparr>tasks := ds\<rparr>))"
  by (simp add: delete_task_def delete_task_trace_def Let_def split: prod.split)






section \<open>Updating a task\<close>

lemma update_one_no_match: "find_one q ds = None \<Longrightarrow> update_one q updates ds = Inr (0, ds)"
  by (induction ds) (auto split: if_splits)

lemma update_one_refused:
  "find_one q ds = Some d \<Longrightarrow> set_fields (encode_patch updates) d = Inl e \<Longrightarrow>
     update_one q updates ds = Inl e"
  by (induction ds) (auto split: if_splits)

lemma update_one_applied:
  "find_one q ds = Some d \<Longrightarrow> set_fields (encode_patch updates) d = Inr (n, d') \<Longrightarrow>
     \<exists>ds'. update_one q updates ds = Inr (n, ds') \<and> (d' = d \<longrightarrow> ds' = ds) \<and>
           length ds' = length ds \<and> set ds' \<subseteq> insert d' (set ds)"
  by (induction ds) (auto split: if_splits)

lemma unchanged_set: "\<not> changes patch d \<Longrightarrow> d ++ map_of patch = d"
proof
  fix k
  assume a: "\<not> changes patch d"
  show "(d ++ map_of patch) k = d k"
  proof (cases "map_of patch k")
    case None
    then show ?thesis by (simp add: map_add_def)
  next
    case (Some v)
    then have "k \<in> set (map fst patch)" by (auto dest: map_of_SomeD intro: rev_image_eqI)
    with a have "d k = map_of patch k" by (auto simp: changes_def list_ex_iff)
    with Some show ?thesis by (simp add: map_add_def)
  qed
qed

lemma changed_set: "changes patch d \<Longrightarrow> d ++ map_of patch \<noteq> d"
proof
  assume c: "changes patch d" and e: "d ++ map_of patch = d"
  from c obtain k where k: "k \<in> set (map fst patch)" and ne: "d k \<noteq> map_of patch k"
    by (auto simp: changes_def list_ex_iff)
  from k obtain v where "map_of patch k = Some v"
    by (cases "map_of patch k") (auto simp: map_of_eq_None_iff)
  then have "(d ++ map_of patch) k = map_of patch k" by (simp add: map_add_def)
  with e ne show False by simp
qed

lemma map_of_encode_patch: "map_of (encode_patch updates) k = map_option bson (map_of updates k)"
  by (induction updates) (auto simp: encode_patch_def)

lemma map_of_stamped_patch:
  "map_of (stamped_patch now updates) k =
     (if k = ''updated_at'' then Some (bson (PDatetime now))
      else map_option bson (map_of updates k))"
  by (simp add: stamped_patch_def map_of_encode_patch update_conv')

lemma keys_stamped_patch:
  "set (map fst (stamped_patch now updates)) = insert ''updated_at'' (set (map fst updates))"
proof -
  have "set (map fst (stamped_patch now updates)) = dom (map_of (stamped_patch now updates))"
    by (simp add: dom_map_of_conv_image_fst)
  also have "\<dots> = insert ''updated_at'' (dom (map_of updates))"
    by (auto simp: dom_def map_of_stamped_patch split: if_splits)
  finally show ?thesis by (simp add: dom_map_of_conv_image_fst)
qed

lemma find_one_matches: "find_one q ds = Some d \<Longrightarrow> q d \<and> d \<in> set ds"
  by (induction ds) (auto split: if_splits)

text \<open>The result of \<open>update_task\<close> on a document that is found.\<close>

lemma update_task_found:
  assumes "get_task task_id s = Some doc"
  shows "fst (update_task now task_id updates s) =
           (\<not> (map_of (stamped_patch now updates) ''_id'' \<noteq> None \<and>
               map_of (stamped_patch now updates) ''_id'' \<noteq> doc ''_id'') \<and>
            changes (stamped_patch now updates) doc)"
    and "\<not> fst (update_task now task_id updates s) \<Longrightarrow> snd (update_task now task_id updates s) = s"
proof -
  let ?p = "stamped_patch now updates"
  let ?u = "AList.update ''updated_at'' (PDatetime now) updates"
  from assms have f: "find_one (matches_id task_id) (tasks s) = Some doc" by (simp add: get_task_def)
  have p: "encode_patch ?u = ?p" by (simp add: stamped_patch_def)
  have "fst (update_task now task_id updates s) =
           (\<not> (map_of ?p ''_id'' \<noteq> None \<and> map_of ?p ''_id'' \<noteq> doc ''_id'') \<and> changes ?p doc) \<and>
     (\<not> fst (update_task now task_id updates s) \<longrightarrow> snd (update_task now task_id updates s) = s)"
  proof (cases "map_of ?p ''_id'' \<noteq> None \<and> map_of ?p ''_id'' \<noteq> doc ''_id''")
    case True
    then have "set_fields ?p doc = Inl WriteError" by (simp add: set_fields_def)
    with update_one_refused[OF f, of ?u] p
    have "update_one (matches_id task_id) ?u (tasks s) = Inl WriteError" by simp
    then show ?thesis using True by (simp add: update_task_def Let_def)
  next
    case False
    show ?thesis
    proof (cases "changes ?p doc")
      case c: True
      with False have "set_fields ?p doc = Inr (1, doc ++ map_of ?p)"
        by (simp add: set_fields_def)
      with update_one_applied[OF f, of ?u 1 "doc ++ map_of ?p"] p
      obtain ds' where "update_one (matches_id task_id) ?u (tasks s) = Inr (1, ds')" by auto
      then show ?thesis using False c by (simp add: update_task_def Let_def)
    next
      case c: False
      with False have "set_fields ?p doc = Inr (0, doc)"
        by (simp add: set_fields_def unchanged_set)
      with update_one_applied[OF f, of ?u 0 doc] p
      have "update_one (matches_id task_id) ?u (tasks s) = Inr (0, tasks s)" by auto
      then show ?thesis using False c by (simp add: update_task_def Let_def)
    qed
  qed
  then show "fst (update_task now task_id updates s) =
           (\<not> (map_of ?p ''_id'' \<noteq> None \<and> map_of ?p ''_id'' \<noteq> doc ''_id'') \<and> changes ?p doc)"
    and "\<not> fst (update_task now task_id updates s) \<Longrightarrow> snd (update_task now task_id updates s) = s"
    by blast+
qed

lemma update_task_not_found:
  assumes "get_task task_id s = None"
  shows "update_task now task_id updates s = (False, s)"
  using assms by (simp add: update_task_def get_task_def update_one_no_match Let_def)

lemma changes_same_values:
  assumes "\<forall>k v. map_of updates k = Some v \<and> k \<noteq> ''updated_at'' \<longrightarrow> doc k = Some (bson v)"
  shows "changes (stamped_patch now updates) doc = (doc ''updated_at'' \<noteq> Some (bson (PDatetime now)))"
proof -
  have "changes (stamped_patch now updates) doc =
      (\<exists>k \<in> insert ''updated_at'' (set (map fst updates)).
          doc k \<noteq> map_of (stamped_patch now updates) k)"
    unfolding changes_def list_ex_iff keys_stamped_patch ..
  also have "\<dots> = (doc ''updated_at'' \<noteq> Some (bson (PDatetime now)))"
  proof -
    have "doc k = map_of (stamped_patch now updates) k"
      if "k \<in> set (map fst updates)" "k \<noteq> ''updated_at''" for k
    proof -
      from that(1) obtain v where "map_of updates k = Some v"
        by (cases "map_of updates k") (auto simp: map_of_eq_None_iff)
      with assms that(2) show ?thesis by (simp add: map_of_stamped_patch)
    qed
    then show ?thesis by (auto simp: map_of_stamped_patch)
  qed
  finally show ?thesis .
qed

text \<open>
  C10, as the code has it. For a task id that matches a document, \<^verbatim>\<open>update_task\<close> returns
  \<^verbatim>\<open>True\<close> only when a field of the document changes under the patch it sends, and that
  patch always carries \<^verbatim>\<open>updated_at\<close>: when every value the caller supplies equals the stored
  one, the result is \<^verbatim>\<open>True\<close> exactly when the clock reading differs from the stored
  \<^verbatim>\<open>updated_at\<close>. When the result is \<^verbatim>\<open>False\<close>, the state is unchanged: no reminder is
  rescheduled, whatever the patch holds.
\<close>

theorem update_task_true_iff_changed:
  assumes "get_task task_id s = Some doc"
  shows "(fst (update_task now task_id updates s) \<longrightarrow> changes (stamped_patch now updates) doc) \<and>
         ((\<forall>k v. map_of updates k = Some v \<and> k \<noteq> ''updated_at'' \<longrightarrow> doc k = Some (bson v)) \<longrightarrow>
            fst (update_task now task_id updates s) =
              (doc ''updated_at'' \<noteq> Some (bson (PDatetime now)))) \<and>
         (\<not> fst (update_task now task_id updates s) \<longrightarrow>
            snd (update_task now task_id updates s) = s)"
proof (intro conjI impI)
  assume "fst (update_task now task_id updates s)"
  then show "changes (stamped_patch now updates) doc"
    by (simp add: update_task_found(1)[OF assms])
next
  assume a: "\<forall>k v. map_of updates k = Some v \<and> k \<noteq> ''updated_at'' \<longrightarrow> doc k = Some (bson v)"
  have "\<not> (map_of (stamped_patch now updates) ''_id'' \<noteq> None \<and>
            map_of (stamped_patch now updates) ''_id'' \<noteq> doc ''_id'')"
    using a[rule_format, of "''_id''"]
    by (cases "map_of updates ''_id''") (simp_all add: map_of_stamped_patch)
  then show "fst (update_task now task_id updates s) =
              (doc ''updated_at'' \<noteq> Some (bson (PDatetime now)))"
    by (simp add: update_task_found(1)[OF assms] changes_same_values[OF a])
next
  assume "\<not> fst (update_task now task_id updates s)"
  then show "snd (update_task now task_id updates s) = s"
    by (rule update_task_found(2)[OF assms])
qed

text \<open>
  C10, as stated, fails: marking the completed task completed again on the next day
  returns \<^verbatim>\<open>True\<close>, and a patch that repeats the stored deadline returns \<^verbatim>\<open>True\<close> and
  reschedules the reminders (the reminder of the day before is gone afterwards).
\<close>

theorem mark_completed_again_counterexample:
  "map (\<lambda>d. d ''status'') (tasks scenario_completed) = [Some (PStr ''completed'')] \<and>
   fst (mark_task_completed (DateTime (Date 2024 1 17) 0) (IdObject 0) scenario_completed) \<and>
   fst (update_task (DateTime (Date 2024 1 22) 0) (IdObject 0)
          [(''actual_deadline'', PStr ''2024-01-22'')] scenario_completed) \<and>
   jobs scenario_completed ''reminder_1day_000000000000000000000000'' \<noteq> None \<and>
   jobs (snd (update_task (DateTime (Date 2024 1 22) 0) (IdObject 0)
          [(''actual_deadline'', PStr ''2024-01-22'')] scenario_completed))
     ''reminder_1day_000000000000000000000000'' = None"
  by code_simp

theorem update_task_true_iff_changed_witness:
  "\<not> fst (mark_task_completed (DateTime (Date 2024 1 16) 0) (IdObject 0) scenario_completed) \<and>
   snd (mark_task_completed (DateTime (Date 2024 1 16) 0) (IdObject 0) scenario_completed) =
     scenario_completed"
proof -
  have "\<not> Option.is_none (get_task (IdObject 0) scenario_completed)" by code_simp
  then obtain doc where d: "get_task (IdObject 0) scenario_completed = Some doc"
    by (auto simp: Option.is_none_def)
  have f: "\<not> fst (update_task (DateTime (Date 2024 1 16) 0) (IdObject 0)
               [(''status'', PStr ''completed'')] scenario_completed)"
    by code_simp
  from update_task_true_iff_changed[OF d, of "DateTime (Date 2024 1 16) 0"
      "[(''status'', PStr ''completed'')]"] f
  show ?thesis unfolding mark_task_completed_def by blast
qed

section \<open>The id that creation returns\<close>

lemma find_one_None_iff: "find_one q ds = None \<longleftrightarrow> (\<forall>d \<in> set ds. \<not> q d)"
  by (induction ds) auto

text \<open>A string never equals the \<^verbatim>\<open>ObjectId\<close> of a document: whatever the patch, an update
  through a string id finds nothing.\<close>

lemma update_task_string_id:
  assumes "\<forall>d \<in> set (tasks s). \<exists>n. d ''_id'' = Some (PObjectId n)"
  shows "update_task now (IdStr x) updates s = (False, s)"
proof -
  from assms have "get_task (IdStr x) s = None"
    by (auto simp: get_task_def find_one_None_iff matches_id_def)
  then show ?thesis by (rule update_task_not_found)
qed

lemma is_none_None: "Option.is_none x \<Longrightarrow> x = None"
  by (simp add: Option.is_none_def)

text \<open>
  C1. The task created on 2024-01-15 gets the deadline 2024-01-22, and \<^verbatim>\<open>create_task\<close>
  returns the string of its \<^verbatim>\<open>ObjectId\<close>. With that string as id,
  \<^verbatim>\<open>mark_task_in_progress\<close> and \<^verbatim>\<open>mark_task_completed\<close> match no document: they return
  \<^verbatim>\<open>False\<close> and leave the state as it is, so the task stays pending and is overdue on
  2024-01-23.
\<close>

theorem returned_id_matches_no_task:
  "fst (create_task (DateTime (Date 2024 1 15) 0) [''task'' \<mapsto> PStr ''Prepare slides'']
          PNone empty_state) = Inr (IdStr ''000000000000000000000000'') \<and>
   map (\<lambda>d. (d ''_id'', d ''actual_deadline'', d ''status'')) (tasks scenario_created) =
     [(Some (PObjectId 0), Some (PStr ''2024-01-22''), Some (PStr ''pending''))] \<and>
   mark_task_in_progress (DateTime (Date 2024 1 16) 0) (IdStr ''000000000000000000000000'')
       scenario_created = (False, scenario_created) \<and>
   mark_task_completed (DateTime (Date 2024 1 17) 0) (IdStr ''000000000000000000000000'')
       scenario_created = (False, scenario_created) \<and>
   map (\<lambda>d. (d ''_id'', d ''status''))
       (get_overdue_tasks (DateTime (Date 2024 1 23) 0) scenario_created) =
     [(Some (PObjectId 0), Some (PStr ''pending''))]"
proof -
  have a: "fst (create_task (DateTime (Date 2024 1 15) 0) [''task'' \<mapsto> PStr ''Prepare slides'']
          PNone empty_state) = Inr (IdStr ''000000000000000000000000'')"
    by code_simp
  have b: "map (\<lambda>d. (d ''_id'', d ''actual_deadline'', d ''status'')) (tasks scenario_created) =
     [(Some (PObjectId 0), Some (PStr ''2024-01-22''), Some (PStr ''pending''))]"
    by code_simp
  have "Option.is_none (get_task (IdStr ''000000000000000000000000'') scenario_created)"
    by code_simp
  then have n: "get_task (IdStr ''000000000000000000000000'') scenario_created = None"
    by (rule is_none_None)
  have c: "map (\<lambda>d. (d ''_id'', d ''status''))
       (get_overdue_tasks (DateTime (Date 2024 1 23) 0) scenario_created) =
     [(Some (PObjectId 0), Some (PStr ''pending''))]"
    by code_simp
  show ?thesis
    using a b c
    by (simp add: mark_task_in_progress_def mark_task_completed_def update_task_not_found[OF n])
qed

section \<open>Statistics\<close>

lemma tasks_reschedule: "tasks (reschedule_task_reminders now task_id s) = tasks s"
  by (simp add: reschedule_task_reminders_def Let_def split: option.split)

lemma update_one_result:
  "update_one q updates ds = Inr (n, ds') \<Longrightarrow>
     ds' = ds \<or> (\<exists>d \<in> set ds. \<exists>k. set_fields (encode_patch updates) d = Inr (k, d ++ map_of (encode_patch updates)) \<and>
                   set ds' \<subseteq> insert (d ++ map_of (encode_patch updates)) (set ds))"
proof (induction ds arbitrary: n ds')
  case Nil
  then show ?case by simp
next
  case (Cons a ds)
  show ?case
  proof (cases "q a")
    case True
    with Cons.prems show ?thesis
      by (auto simp: set_fields_def split: sum.splits if_splits)
  next
    case False
    with Cons.prems obtain ds'' where u: "update_one q updates ds = Inr (n, ds'')" and e: "ds' = a # ds''"
      by (auto split: sum.splits)
    from Cons.IH[OF u] e show ?thesis by auto
  qed
qed

lemma tasks_update_task:
  "tasks (snd (update_task now task_id updates s)) = tasks s \<or>
   (\<exists>d \<in> set (tasks s). \<exists>k.
      set_fields (stamped_patch now updates) d = Inr (k, d ++ map_of (stamped_patch now updates)) \<and>
      set (tasks (snd (update_task now task_id updates s))) \<subseteq>
        insert (d ++ map_of (stamped_patch now updates)) (set (tasks s)))"
proof (cases "update_one (matches_id task_id)
                (AList.update ''updated_at'' (PDatetime now) updates) (tasks s)")
  case (Inl e)
  then show ?thesis by (simp add: update_task_def Let_def)
next
  case (Inr r)
  obtain n ds' where r: "r = (n, ds')" by (cases r)
  from Inr r have t: "tasks (snd (update_task now task_id updates s)) = ds'"
    by (simp add: update_task_def Let_def tasks_reschedule)
  from update_one_result[OF Inr[unfolded r]] show ?thesis
    unfolding t stamped_patch_def by blast
qed

lemma well_formed_patched:
  assumes w: "well_formed_doc d"
    and k: "case map_of updates ''status'' of None \<Rightarrow> True | Some v \<Rightarrow> v \<in> status_values"
    and s: "set_fields (stamped_patch now updates) d = Inr (n, d')"
  shows "well_formed_doc d'"
proof -
  let ?m = "map_of (stamped_patch now updates)"
  from s have d': "d' = d ++ ?m" and i: "?m ''_id'' = None \<or> ?m ''_id'' = d ''_id''"
    by (auto simp: set_fields_def split: if_splits)
  have st: "\<exists>v \<in> status_values. d' ''status'' = Some v"
  proof (cases "map_of updates ''status''")
    case None
    then have "d' ''status'' = d ''status''" by (simp add: d' map_add_def map_of_stamped_patch)
    with w show ?thesis by (simp add: well_formed_doc_def)
  next
    case (Some v)
    with k have v: "v \<in> status_values" by simp
    then have "bson v = v" by (auto simp: status_values_def)
    with Some have "d' ''status'' = Some v" by (simp add: d' map_add_def map_of_stamped_patch)
    with v show ?thesis by blast
  qed
  from i have "d' ''_id'' = d ''_id''" by (auto simp: d' map_add_def split: option.splits)
  with w st show ?thesis by (simp add: well_formed_doc_def)
qed

lemma well_formed_update_task:
  assumes "\<forall>d \<in> set (tasks s). well_formed_doc d"
    and "case map_of updates ''status'' of None \<Rightarrow> True | Some v \<Rightarrow> v \<in> status_values"
  shows "\<forall>d \<in> set (tasks (snd (update_task now task_id updates s))). well_formed_doc d"
  using tasks_update_task[of now task_id updates s] assms
  by (auto dest: well_formed_patched)

lemma well_formed_create_task:
  assumes "\<forall>d \<in> set (tasks s). well_formed_doc d"
  shows "\<forall>d \<in> set (tasks (snd (create_task now task_data meeting_id s))). well_formed_doc d"
proof (cases "task_doc now task_data meeting_id")
  case (Inl e)
  with assms show ?thesis by (simp add: create_task_Inl)
next
  case (Inr doc)
  then have "doc ''status'' = Some (PStr ''pending'')" by (rule task_doc_InrE) simp
  then have "well_formed_doc ((map_option bson \<circ> doc(''created_at'' \<mapsto> PDatetime now))
                             (''_id'' \<mapsto> PObjectId (oid_counter s)))"
    by (simp add: well_formed_doc_def status_values_def)
  with assms show ?thesis by (simp add: create_task_Inr[OF Inr])
qed

lemma set_delete_one: "set (snd (delete_one q ds)) \<subseteq> set ds"
  by (induction ds) (auto split: prod.splits)

lemma well_formed_delete_task:
  assumes "\<forall>d \<in> set (tasks s). well_formed_doc d"
  shows "\<forall>d \<in> set (tasks (snd (delete_task task_id s))). well_formed_doc d"
  using assms set_delete_one[of "matches_id task_id" "tasks s"]
  by (auto simp: delete_task_unfold Let_def split: prod.splits)

lemma well_formed_apply_operation:
  assumes "\<forall>d \<in> set (tasks s). well_formed_doc d" "keeps_status op"
  shows "\<forall>d \<in> set (tasks (apply_operation op s)). well_formed_doc d"
proof (cases op)
  case (CreateTask now task_data meeting_id)
  with assms(1) show ?thesis by (simp add: well_formed_create_task)
next
  case (UpdateTask now task_id updates)
  with assms show ?thesis by (simp add: well_formed_update_task)
next
  case (MarkInProgress now task_id)
  have "\<forall>d \<in> set (tasks (snd (update_task now task_id [(''status'', PStr ''in_progress'')] s))).
          well_formed_doc d"
    by (rule well_formed_update_task[OF assms(1)]) (simp add: status_values_def)
  with MarkInProgress show ?thesis by (simp add: mark_task_in_progress_def)
next
  case (MarkCompleted now task_id)
  have "\<forall>d \<in> set (tasks (snd (update_task now task_id [(''status'', PStr ''completed'')] s))).
          well_formed_doc d"
    by (rule well_formed_update_task[OF assms(1)]) (simp add: status_values_def)
  with MarkCompleted show ?thesis by (simp add: mark_task_completed_def)
next
  case (DeleteTask task_id)
  with assms(1) show ?thesis by (simp add: well_formed_delete_task)
qed

lemma well_formed_fold:
  "\<forall>d \<in> set (tasks s). well_formed_doc d \<Longrightarrow> list_all keeps_status ops \<Longrightarrow>
     \<forall>d \<in> set (tasks (fold apply_operation ops s)). well_formed_doc d"
proof (induction ops arbitrary: s)
  case Nil
  then show ?case by simp
next
  case (Cons op ops)
  from Cons.prems(2) have k: "keeps_status op" and r: "list_all keeps_status ops" by simp_all
  from Cons.IH[OF well_formed_apply_operation[OF Cons.prems(1) k] r] show ?case by simp
qed

lemma well_formed_run:
  "list_all keeps_status ops \<Longrightarrow> \<forall>d \<in> set (tasks (run ops)). well_formed_doc d"
  unfolding run_def by (rule well_formed_fold) (simp_all add: empty_state_def)

text \<open>In a state reached by the operations, an update through a string id changes nothing.\<close>

lemma update_task_string_id_run:
  assumes "list_all keeps_status ops"
  shows "update_task now (IdStr x) updates (run ops) = (False, run ops)"
proof (rule update_task_string_id)
  from well_formed_run[OF assms]
  show "\<forall>d \<in> set (tasks (run ops)). \<exists>n. d ''_id'' = Some (PObjectId n)"
    by (simp add: well_formed_doc_def)
qed

lemma count_by_status:
  "\<forall>d \<in> set ds. well_formed_doc d \<Longrightarrow>
     length ds = count_documents (status_is ''pending'') ds +
                 count_documents (status_is ''in_progress'') ds +
                 count_documents (status_is ''completed'') ds"
proof (induction ds)
  case Nil
  show ?case by (simp add: count_documents_def)
next
  case (Cons d ds)
  from Cons.prems have "d ''status'' = Some (PStr ''pending'') \<or>
      d ''status'' = Some (PStr ''in_progress'') \<or> d ''status'' = Some (PStr ''completed'')"
    by (auto simp: well_formed_doc_def status_values_def)
  with Cons show ?case
    by (auto simp: count_documents_def status_is_def)
qed

text \<open>
  C4, as the code has it. In every state reached from the empty store by \<^verbatim>\<open>create_task\<close>,
  \<^verbatim>\<open>mark_task_in_progress\<close>, \<^verbatim>\<open>mark_task_completed\<close>, \<^verbatim>\<open>delete_task\<close> and those
  \<^verbatim>\<open>update_task\<close> calls whose patch leaves \<^verbatim>\<open>status\<close> alone or sets it to one of the three
  statuses, the statistics satisfy total = pending + in progress + completed; in the empty
  store every count is zero.
\<close>

theorem statistics_total_is_sum:
  assumes "list_all keeps_status ops"
    and "get_task_statistics now (run ops) = Inr st"
  shows "total_tasks st = pending_tasks st + in_progress_tasks st + completed_tasks st \<and>
         (ops = [] \<longrightarrow> total_tasks st = 0 \<and> pending_tasks st = 0 \<and> in_progress_tasks st = 0 \<and>
            completed_tasks st = 0 \<and> overdue_tasks st = 0 \<and> upcoming_tasks st = 0)"
proof
  from assms(2) have t: "total_tasks st = length (tasks (run ops))"
    and p: "pending_tasks st = count_documents (status_is ''pending'') (tasks (run ops))"
    and i: "in_progress_tasks st = count_documents (status_is ''in_progress'') (tasks (run ops))"
    and c: "completed_tasks st = count_documents (status_is ''completed'') (tasks (run ops))"
    by (auto simp: get_task_statistics_def count_documents_def split: sum.splits)
  from count_by_status[OF well_formed_run[OF assms(1)]]
  show "total_tasks st = pending_tasks st + in_progress_tasks st + completed_tasks st"
    by (simp add: t p i c)
next
  show "ops = [] \<longrightarrow> total_tasks st = 0 \<and> pending_tasks st = 0 \<and> in_progress_tasks st = 0 \<and>
            completed_tasks st = 0 \<and> overdue_tasks st = 0 \<and> upcoming_tasks st = 0"
    using assms(2)
    by (auto simp: run_def empty_state_def get_task_statistics_def get_upcoming_tasks_def
        get_overdue_tasks_def count_documents_def split: sum.splits)
qed


text \<open>
  C4, as stated, fails: \<^verbatim>\<open>update_task\<close> stores any status it is given. After a task is
  created and its status set to \<^verbatim>\<open>archived\<close>, the total is 1 and the three counts are 0.
\<close>

theorem statistics_arbitrary_status_counterexample:
  "map_sum id (\<lambda>st. (total_tasks st, pending_tasks st, in_progress_tasks st, completed_tasks st))
     (get_task_statistics (DateTime (Date 2024 1 17) 0)
        (run [CreateTask (DateTime (Date 2024 1 15) 0) [''task'' \<mapsto> PStr ''Prepare slides''] PNone,
              UpdateTask (DateTime (Date 2024 1 16) 0) (IdObject 0)
                [(''status'', PStr ''archived'')]])) =
   Inr (1, 0, 0, 0)"
  by code_simp

theorem statistics_total_is_sum_witness:
  "map_sum id (\<lambda>st. (total_tasks st, pending_tasks st, in_progress_tasks st, completed_tasks st))
     (get_task_statistics (DateTime (Date 2024 1 17) 0)
        (run [CreateTask (DateTime (Date 2024 1 15) 0) [''task'' \<mapsto> PStr ''Prepare slides''] PNone,
              CreateTask (DateTime (Date 2024 1 15) 0) [''task'' \<mapsto> PStr ''Book room''] PNone,
              MarkInProgress (DateTime (Date 2024 1 16) 0) (IdObject 0),
              UpdateTask (DateTime (Date 2024 1 16) 0) (IdObject 1)
                [(''status'', PStr ''completed''), (''context'', PStr ''done'')]])) =
   Inr (2, 0, 1, 1) \<and> 2 = (0::nat) + 1 + 1"
proof -
  let ?ops = "[CreateTask (DateTime (Date 2024 1 15) 0) [''task'' \<mapsto> PStr ''Prepare slides''] PNone,
              CreateTask (DateTime (Date 2024 1 15) 0) [''task'' \<mapsto> PStr ''Book room''] PNone,
              MarkInProgress (DateTime (Date 2024 1 16) 0) (IdObject 0),
              UpdateTask (DateTime (Date 2024 1 16) 0) (IdObject 1)
                [(''status'', PStr ''completed''), (''context'', PStr ''done'')]]"
  let ?r = "get_task_statistics (DateTime (Date 2024 1 17) 0) (run ?ops)"
  have k: "list_all keeps_status ?ops" by (simp add: status_values_def)
  have e: "map_sum id (\<lambda>st. (total_tasks st, pending_tasks st, in_progress_tasks st,
             completed_tasks st)) ?r = Inr (2, 0, 1, 1)"
    by code_simp
  then obtain st where st: "?r = Inr st" by (cases ?r) auto
  from statistics_total_is_sum[OF k st] e show ?thesis by simp
qed

section \<open>Overdue tasks\<close>

subsection \<open>Date strings are ordered as their dates\<close>

lemma of_char_digit: "k < 10 \<Longrightarrow> of_char (digit k) = 48 + k"
  by (simp add: digit_def)

lemma digit_less_iff: "a < 10 \<Longrightarrow> b < 10 \<Longrightarrow> digit a < digit b \<longleftrightarrow> a < b"
  by (simp add: less_char_def of_char_digit)

lemma digit_eq_iff: "a < 10 \<Longrightarrow> b < 10 \<Longrightarrow> digit a = digit b \<longleftrightarrow> a = b"
proof
  assume "a < 10" "b < 10" "digit a = digit b"
  then have "(of_char (digit a) :: nat) = of_char (digit b)" by simp
  with \<open>a < 10\<close> \<open>b < 10\<close> show "a = b" by (simp add: of_char_digit)
qed simp

lemma last_digit_less:
  fixes a b :: nat
  shows "a < b \<longleftrightarrow> (a div 10 < b div 10 \<or> (a div 10 = b div 10 \<and> a mod 10 < b mod 10))"
proof -
  have "a = 10 * (a div 10) + a mod 10" "b = 10 * (b div 10) + b mod 10" by simp_all
  moreover have "a mod 10 < 10" "b mod 10 < 10" by simp_all
  ultimately show ?thesis by linarith
qed

lemma last_digit_eq:
  fixes a b :: nat
  shows "a = b \<longleftrightarrow> (a div 10 = b div 10 \<and> a mod 10 = b mod 10)"
  by (metis div_mult_mod_eq)

lemma pad2_less_iff:
  assumes "a < 100" "b < 100"
  shows "pad2 a < pad2 b \<longleftrightarrow> a < b"
proof -
  from assms have d: "a div 10 < 10" "b div 10 < 10" by simp_all
  have "pad2 a < pad2 b \<longleftrightarrow>
      (a div 10 < b div 10 \<or> (a div 10 = b div 10 \<and> a mod 10 < b mod 10))"
    using d by (simp add: pad2_def digit_less_iff digit_eq_iff)
  then show ?thesis using last_digit_less[of a b] by simp
qed

lemma pad2_eq_iff:
  assumes "a < 100" "b < 100"
  shows "pad2 a = pad2 b \<longleftrightarrow> a = b"
proof -
  from assms have d: "a div 10 < 10" "b div 10 < 10" by simp_all
  have "pad2 a = pad2 b \<longleftrightarrow> (a div 10 = b div 10 \<and> a mod 10 = b mod 10)"
    using d by (simp add: pad2_def digit_eq_iff)
  then show ?thesis using last_digit_eq[of a b] by simp
qed

lemma pad4_digits:
  assumes "n \<le> 9999"
  shows "pad4 n = [digit (n div 10 div 10 div 10), digit (n div 10 div 10 mod 10),
                   digit (n div 10 mod 10), digit (n mod 10)]"
proof -
  have a: "n div 100 = n div 10 div 10" by (simp add: div_mult2_eq[symmetric])
  have b: "n div 1000 = n div 10 div 10 div 10" by (simp add: div_mult2_eq[symmetric])
  have "n < 10 * 1000" using assms by simp
  then have "n div 1000 < 10" by (rule less_mult_imp_div_less)
  then have "n div 1000 mod 10 = n div 1000" by simp
  then show ?thesis by (simp add: pad4_def a b)
qed

lemma pad4_less_iff:
  assumes "a \<le> 9999" "b \<le> 9999"
  shows "pad4 a < pad4 b \<longleftrightarrow> a < b"
proof -
  have t: "a div 10 div 10 div 10 < 10" "b div 10 div 10 div 10 < 10"
    using assms by (simp_all add: div_mult2_eq[symmetric])
  show ?thesis
    unfolding pad4_digits[OF assms(1)] pad4_digits[OF assms(2)]
    using t last_digit_less[of a b] last_digit_less[of "a div 10" "b div 10"]
      last_digit_less[of "a div 10 div 10" "b div 10 div 10"]
      last_digit_eq[of "a div 10" "b div 10"]
      last_digit_eq[of "a div 10 div 10" "b div 10 div 10"]
    by (simp add: digit_less_iff digit_eq_iff) blast
qed

lemma pad4_eq_iff:
  assumes "a \<le> 9999" "b \<le> 9999"
  shows "pad4 a = pad4 b \<longleftrightarrow> a = b"
proof -
  have t: "a div 10 div 10 div 10 < 10" "b div 10 div 10 div 10 < 10"
    using assms by (simp_all add: div_mult2_eq[symmetric])
  show ?thesis
    unfolding pad4_digits[OF assms(1)] pad4_digits[OF assms(2)]
    using t last_digit_eq[of a b] last_digit_eq[of "a div 10" "b div 10"]
      last_digit_eq[of "a div 10 div 10" "b div 10 div 10"]
    by (simp add: digit_eq_iff)
qed

lemma append_less_append:
  fixes a a' b b' :: "'a::linorder list"
  assumes "length a = length a'"
  shows "a @ b < a' @ b' \<longleftrightarrow> a < a' \<or> (a = a' \<and> b < b')"
  using assms by (induction a a' rule: list_induct2) auto

lemma strftime_less_iff:
  assumes "valid_date a" "valid_date b"
  shows "strftime a < strftime b \<longleftrightarrow> date_less a b"
proof -
  from assms have y: "year a \<le> 9999" "year b \<le> 9999"
    and m: "month a < 100" "month b < 100"
    and d: "day a < 100" "day b < 100"
    using days_in_month_le[of "year a" "month a"] days_in_month_le[of "year b" "month b"]
    by (auto simp: valid_date_def MAXYEAR_def)
  have l4: "length (pad4 (year a)) = length (pad4 (year b))" by (simp add: pad4_def)
  have l2: "length (pad2 (month a)) = length (pad2 (month b))" by (simp add: pad2_def)
  have "strftime a < strftime b \<longleftrightarrow>
        pad4 (year a) < pad4 (year b) \<or> (pad4 (year a) = pad4 (year b) \<and>
          (pad2 (month a) < pad2 (month b) \<or> (pad2 (month a) = pad2 (month b) \<and>
             pad2 (day a) < pad2 (day b))))"
    unfolding strftime_def
    by (simp add: append_less_append[OF l4] append_less_append[OF l2])
  then show ?thesis
    by (simp add: pad4_less_iff[OF y] pad4_eq_iff[OF y] pad2_less_iff[OF m] pad2_eq_iff[OF m]
        pad2_less_iff[OF d] date_less_def)
qed

subsection \<open>The query\<close>

lemma count_list_insort_key:
  "count_list (insort_key f x xs) y = count_list (x # xs) y"
  by (induction xs) auto

lemma count_list_sort_key: "count_list (sort_key f xs) y = count_list xs y"
  by (induction xs) (simp_all add: count_list_insort_key)

lemma count_list_filter:
  "count_list (filter P xs) y = (if P y then count_list xs y else 0)"
  by (induction xs) auto

lemma field_in_open_status:
  "field_in d ''status'' [''pending'', ''in_progress''] \<longleftrightarrow> open_status d"
  by (auto simp: field_in_def open_status_def status_is_def split: option.splits pyval.splits)

lemma field_lt_iff:
  "field_lt d key v \<longleftrightarrow> (\<exists>dl. d key = Some (PStr dl) \<and> dl < v)"
  by (auto simp: field_lt_def split: option.splits pyval.splits)

lemma open_not_completed: "open_status d \<Longrightarrow> \<not> status_is ''completed'' d"
  by (auto simp: open_status_def status_is_def)

lemma get_overdue_tasks_eq:
  "get_overdue_tasks now s =
     sort_key deadline_key
       (filter (\<lambda>d. open_status d \<and>
                  (\<exists>dl. d ''actual_deadline'' = Some (PStr dl) \<and> dl < strftime (dt_date now)))
          (tasks s))"
  by (simp add: get_overdue_tasks_def Let_def field_in_open_status field_lt_iff)

lemma set_get_overdue_tasks:
  "set (get_overdue_tasks now s) =
     {d \<in> set (tasks s). open_status d \<and>
        (\<exists>dl. d ''actual_deadline'' = Some (PStr dl) \<and> dl < strftime (dt_date now))}"
  by (simp add: get_overdue_tasks_eq)

text \<open>
  C6, as the code has it. \<^verbatim>\<open>get_overdue_tasks\<close> compares strings, not dates: it returns
  exactly the open tasks whose \<^verbatim>\<open>actual_deadline\<close> is a string below today's date string,
  each as often as it is stored, in ascending order of that string, and never a completed
  task. For a deadline stored in the form \<^verbatim>\<open>YYYY-MM-DD\<close>, the form that
  \<^verbatim>\<open>_suggest_deadline\<close> produces, the comparison of the strings is the comparison of the
  dates: such a task is returned exactly when it is open and its deadline is strictly before
  the current date, and of two such tasks in the result the earlier deadline comes first.
\<close>

theorem get_overdue_tasks_spec:
  "set (get_overdue_tasks now s) =
     {d \<in> set (tasks s). open_status d \<and>
        (\<exists>dl. d ''actual_deadline'' = Some (PStr dl) \<and> dl < strftime (dt_date now))} \<and>
   (\<forall>d. count_list (get_overdue_tasks now s) d =
          (if d \<in> set (get_overdue_tasks now s) then count_list (tasks s) d else 0)) \<and>
   sorted (map deadline_key (get_overdue_tasks now s)) \<and>
   (\<forall>d \<in> set (get_overdue_tasks now s).
      d ''actual_deadline'' = Some (PStr (deadline_key d)) \<and> \<not> status_is ''completed'' d) \<and>
   (\<forall>d \<in> set (tasks s). \<forall>dl.
      valid_date (dt_date now) \<and> valid_date dl \<and>
      d ''actual_deadline'' = Some (PStr (strftime dl)) \<longrightarrow>
        (d \<in> set (get_overdue_tasks now s) \<longleftrightarrow> open_status d \<and> date_less dl (dt_date now))) \<and>
   (\<forall>i j a b. i < j \<and> j < length (get_overdue_tasks now s) \<and> valid_date a \<and> valid_date b \<and>
      deadline_key (get_overdue_tasks now s ! i) = strftime a \<and>
      deadline_key (get_overdue_tasks now s ! j) = strftime b \<longrightarrow> \<not> date_less b a)"
proof (intro conjI allI ballI impI)
  show "set (get_overdue_tasks now s) =
     {d \<in> set (tasks s). open_status d \<and>
        (\<exists>dl. d ''actual_deadline'' = Some (PStr dl) \<and> dl < strftime (dt_date now))}"
    by (rule set_get_overdue_tasks)
next
  fix d
  show "count_list (get_overdue_tasks now s) d =
          (if d \<in> set (get_overdue_tasks now s) then count_list (tasks s) d else 0)"
    unfolding set_get_overdue_tasks
    by (simp add: get_overdue_tasks_eq count_list_sort_key count_list_filter count_list_0_iff)
      blast
next
  show "sorted (map deadline_key (get_overdue_tasks now s))"
    by (simp add: get_overdue_tasks_eq)
next
  fix d assume "d \<in> set (get_overdue_tasks now s)"
  then show "d ''actual_deadline'' = Some (PStr (deadline_key d))"
    by (auto simp: set_get_overdue_tasks deadline_key_def)
next
  fix d assume "d \<in> set (get_overdue_tasks now s)"
  then show "\<not> status_is ''completed'' d"
    by (auto simp: set_get_overdue_tasks open_not_completed)
next
  fix d dl
  assume d: "d \<in> set (tasks s)"
    and a: "valid_date (dt_date now) \<and> valid_date dl \<and>
            d ''actual_deadline'' = Some (PStr (strftime dl))"
  then show "d \<in> set (get_overdue_tasks now s) \<longleftrightarrow> open_status d \<and> date_less dl (dt_date now)"
    by (auto simp: set_get_overdue_tasks strftime_less_iff)
next
  fix i j a b
  assume h: "i < j \<and> j < length (get_overdue_tasks now s) \<and> valid_date a \<and> valid_date b \<and>
      deadline_key (get_overdue_tasks now s ! i) = strftime a \<and>
      deadline_key (get_overdue_tasks now s ! j) = strftime b"
  have "sorted (map deadline_key (get_overdue_tasks now s))"
    by (simp add: get_overdue_tasks_eq)
  with h have "map deadline_key (get_overdue_tasks now s) ! i \<le>
               map deadline_key (get_overdue_tasks now s) ! j"
    by (intro sorted_nth_mono) auto
  with h have "strftime a \<le> strftime b" by simp
  then have "\<not> strftime b < strftime a" by simp
  with h show "\<not> date_less b a" by (simp add: strftime_less_iff)
qed

theorem get_overdue_tasks_spec_witness:
  "map (\<lambda>d. (d ''_id'', d ''status'', d ''actual_deadline''))
     (get_overdue_tasks (DateTime (Date 2024 1 20) 0)
        (run [CreateTask (DateTime (Date 2024 1 15) 0)
                [''task'' \<mapsto> PStr ''Prepare slides'', ''actual_deadline'' \<mapsto> PStr ''2024-01-19''] PNone,
              CreateTask (DateTime (Date 2024 1 15) 0)
                [''task'' \<mapsto> PStr ''Book room'', ''actual_deadline'' \<mapsto> PStr ''2024-01-19''] PNone,
              CreateTask (DateTime (Date 2024 1 15) 0)
                [''task'' \<mapsto> PStr ''Send agenda'', ''actual_deadline'' \<mapsto> PStr ''2024-01-10''] PNone,
              MarkCompleted (DateTime (Date 2024 1 16) 0) (IdObject 1),
              MarkInProgress (DateTime (Date 2024 1 16) 0) (IdObject 2)])) =
   [(Some (PObjectId 2), Some (PStr ''in_progress''), Some (PStr ''2024-01-10'')),
    (Some (PObjectId 0), Some (PStr ''pending''), Some (PStr ''2024-01-19''))] \<and>
   list_all (\<lambda>d. \<not> status_is ''completed'' d)
     (get_overdue_tasks (DateTime (Date 2024 1 20) 0)
        (run [CreateTask (DateTime (Date 2024 1 15) 0)
                [''task'' \<mapsto> PStr ''Prepare slides'', ''actual_deadline'' \<mapsto> PStr ''2024-01-19''] PNone,
              CreateTask (DateTime (Date 2024 1 15) 0)
                [''task'' \<mapsto> PStr ''Book room'', ''actual_deadline'' \<mapsto> PStr ''2024-01-19''] PNone,
              CreateTask (DateTime (Date 2024 1 15) 0)
                [''task'' \<mapsto> PStr ''Send agenda'', ''actual_deadline'' \<mapsto> PStr ''2024-01-10''] PNone,
              MarkCompleted (DateTime (Date 2024 1 16) 0) (IdObject 1),
              MarkInProgress (DateTime (Date 2024 1 16) 0) (IdObject 2)]))"
proof
  show "map (\<lambda>d. (d ''_id'', d ''status'', d ''actual_deadline''))
     (get_overdue_tasks (DateTime (Date 2024 1 20) 0)
        (run [CreateTask (DateTime (Date 2024 1 15) 0)
                [''task'' \<mapsto> PStr ''Prepare slides'', ''actual_deadline'' \<mapsto> PStr ''2024-01-19''] PNone,
              CreateTask (DateTime (Date 2024 1 15) 0)
                [''task'' \<mapsto> PStr ''Book room'', ''actual_deadline'' \<mapsto> PStr ''2024-01-19''] PNone,
              CreateTask (DateTime (Date 2024 1 15) 0)
                [''task'' \<mapsto> PStr ''Send agenda'', ''actual_deadline'' \<mapsto> PStr ''2024-01-10''] PNone,
              MarkCompleted (DateTime (Date 2024 1 16) 0) (IdObject 1),
              MarkInProgress (DateTime (Date 2024 1 16) 0) (IdObject 2)])) =
   [(Some (PObjectId 2), Some (PStr ''in_progress''), Some (PStr ''2024-01-10'')),
    (Some (PObjectId 0), Some (PStr ''pending''), Some (PStr ''2024-01-19''))]"
    by code_simp
next
  from get_overdue_tasks_spec
  show "list_all (\<lambda>d. \<not> status_is ''completed'' d)
     (get_overdue_tasks (DateTime (Date 2024 1 20) 0)
        (run [CreateTask (DateTime (Date 2024 1 15) 0)
                [''task'' \<mapsto> PStr ''Prepare slides'', ''actual_deadline'' \<mapsto> PStr ''2024-01-19''] PNone,
              CreateTask (DateTime (Date 2024 1 15) 0)
                [''task'' \<mapsto> PStr ''Book room'', ''actual_deadline'' \<mapsto> PStr ''2024-01-19''] PNone,
              CreateTask (DateTime (Date 2024 1 15) 0)
                [''task'' \<mapsto> PStr ''Send agenda'', ''actual_deadline'' \<mapsto> PStr ''2024-01-10''] PNone,
              MarkCompleted (DateTime (Date 2024 1 16) 0) (IdObject 1),
              MarkInProgress (DateTime (Date 2024 1 16) 0) (IdObject 2)]))"
    unfolding list_all_iff by blast
qed

text \<open>
  C6, as stated, fails. Nothing checks the form of a deadline when a task is created, and
  \<^verbatim>\<open>strptime\<close> reads more than the form \<^verbatim>\<open>YYYY-MM-DD\<close>. A pending task created with the
  deadline \<^verbatim>\<open>2024-1-5\<close> has the date 5 January 2024, for which its reminder is scheduled,
  and is not returned on 20 January 2024, although its deadline is strictly before that
  date. A pending task created with the deadline \<^verbatim>\<open>2024-01- 9\<close> has the date 9 January
  2024 and is returned on 5 January 2024, although its deadline is not before that date.
\<close>

theorem overdue_unpadded_deadline_counterexample:
  "strptime (PStr ''2024-1-5'') = Inr (Date 2024 1 5) \<and>
   date_less (Date 2024 1 5) (dt_date (DateTime (Date 2024 1 20) 0)) \<and>
   map (\<lambda>d. (d ''status'', d ''actual_deadline''))
     (tasks (run [CreateTask (DateTime (Date 2024 1 1) 0)
                    [''task'' \<mapsto> PStr ''Prepare slides'', ''actual_deadline'' \<mapsto> PStr ''2024-1-5'']
                    PNone])) =
     [(Some (PStr ''pending''), Some (PStr ''2024-1-5''))] \<and>
   jobs (run [CreateTask (DateTime (Date 2024 1 1) 0)
                [''task'' \<mapsto> PStr ''Prepare slides'', ''actual_deadline'' \<mapsto> PStr ''2024-1-5'']
                PNone])
     ''reminder_deadline_000000000000000000000000'' =
     Some (SendTaskReminder (DateTime (Date 2024 1 5) 0) (IdStr ''000000000000000000000000'')
             ''deadline today'') \<and>
   map (\<lambda>d. (d ''status'', d ''actual_deadline''))
     (get_overdue_tasks (DateTime (Date 2024 1 20) 0)
        (run [CreateTask (DateTime (Date 2024 1 1) 0)
                [''task'' \<mapsto> PStr ''Prepare slides'', ''actual_deadline'' \<mapsto> PStr ''2024-1-5'']
                PNone])) = [] \<and>
   strptime (PStr ''2024-01- 9'') = Inr (Date 2024 1 9) \<and>
   \<not> date_less (Date 2024 1 9) (dt_date (DateTime (Date 2024 1 5) 0)) \<and>
   map (\<lambda>d. (d ''status'', d ''actual_deadline''))
     (get_overdue_tasks (DateTime (Date 2024 1 5) 0)
        (run [CreateTask (DateTime (Date 2024 1 1) 0)
                [''task'' \<mapsto> PStr ''Book room'', ''actual_deadline'' \<mapsto> PStr ''2024-01- 9'']
                PNone])) =
     [(Some (PStr ''pending''), Some (PStr ''2024-01- 9''))]"
  by code_simp

end
